theory Spec2Isabelle
  imports Complex_Main "HOL-Library.Word"
begin

section \<open>Python values shared by the modules\<close>

text \<open>
  A Python \<open>bytes\<close> object is a list of octets; a Python \<open>str\<close> is a list of Unicode code
  points, so that \<open>len\<close> counts code points and the UTF-8 codec is explicit.
\<close>

type_synonym byte = "8 word"
type_synonym pystr = "nat list"

datatype exn =
    UnhandledCredentials
  | UnauthorizedLogin string
  | UnicodeDecodeError
  | UnicodeEncodeError
  | KeyError
  | AttributeError
  | StructError
  | Truncated
  | InvalidEncoding
  | OverflowError
  | ValueError
  | CollaboratorError string

subsection \<open>The UTF-8 codec of \<open>str.encode\<close> and \<open>bytes.decode\<close> (strict)\<close>

definition is_cont :: "nat \<Rightarrow> bool" where
  "is_cont b = (0x80 \<le> b \<and> b \<le> 0xBF)"

text \<open>The admissible range of the second octet depends on the lead octet (no overlong
  forms, no surrogates, nothing above U+10FFFF).\<close>

definition second_ok :: "nat \<Rightarrow> nat \<Rightarrow> bool" where
  "second_ok n0 n1 =
     (if n0 = 0xE0 then 0xA0 \<le> n1 \<and> n1 \<le> 0xBF
      else if n0 = 0xED then 0x80 \<le> n1 \<and> n1 \<le> 0x9F
      else if n0 = 0xF0 then 0x90 \<le> n1 \<and> n1 \<le> 0xBF
      else if n0 = 0xF4 then 0x80 \<le> n1 \<and> n1 \<le> 0x8F
      else is_cont n1)"

fun utf8_decode :: "byte list \<Rightarrow> pystr option" where
  "utf8_decode [] = Some []"
| "utf8_decode (b0 # bs) =
     (let n0 = unat b0 in
      if n0 < 0x80 then map_option (Cons n0) (utf8_decode bs)
      else if 0xC2 \<le> n0 \<and> n0 \<le> 0xDF then
        (case bs of
           b1 # r \<Rightarrow>
             if is_cont (unat b1)
             then map_option (Cons ((n0 - 0xC0) * 64 + (unat b1 - 0x80))) (utf8_decode r)
             else None
         | _ \<Rightarrow> None)
      else if 0xE0 \<le> n0 \<and> n0 \<le> 0xEF then
        (case bs of
           b1 # b2 # r \<Rightarrow>
             if second_ok n0 (unat b1) \<and> is_cont (unat b2)
             then map_option
                    (Cons ((n0 - 0xE0) * 4096 + (unat b1 - 0x80) * 64 + (unat b2 - 0x80)))
                    (utf8_decode r)
             else None
         | _ \<Rightarrow> None)
      else if 0xF0 \<le> n0 \<and> n0 \<le> 0xF4 then
        (case bs of
           b1 # b2 # b3 # r \<Rightarrow>
             if second_ok n0 (unat b1) \<and> is_cont (unat b2) \<and> is_cont (unat b3)
             then map_option
                    (Cons ((n0 - 0xF0) * 262144 + (unat b1 - 0x80) * 4096
                           + (unat b2 - 0x80) * 64 + (unat b3 - 0x80)))
                    (utf8_decode r)
             else None
         | _ \<Rightarrow> None)
      else None)"

definition utf8_encode_cp :: "nat \<Rightarrow> byte list option" where
  "utf8_encode_cp c =
     (if c < 0x80 then Some [of_nat c]
      else if c < 0x800 then Some [of_nat (0xC0 + c div 64), of_nat (0x80 + c mod 64)]
      else if c < 0x10000 then
        (if 0xD800 \<le> c \<and> c \<le> 0xDFFF then None
         else Some [of_nat (0xE0 + c div 4096), of_nat (0x80 + (c div 64) mod 64),
                    of_nat (0x80 + c mod 64)])
      else if c < 0x110000 then
        Some [of_nat (0xF0 + c div 262144), of_nat (0x80 + (c div 4096) mod 64),
              of_nat (0x80 + (c div 64) mod 64), of_nat (0x80 + c mod 64)]
      else None)"

fun utf8_encode :: "pystr \<Rightarrow> byte list option" where
  "utf8_encode [] = Some []"
| "utf8_encode (c # cs) =
     (case utf8_encode_cp c of
        None \<Rightarrow> None
      | Some e \<Rightarrow> map_option ((@) e) (utf8_encode cs))"


section \<open>neo/api/utils.py: the size-limited ordered dictionary\<close>

text \<open>
  An \<open>OrderedDict\<close> is the list of its items in insertion order, oldest first.
  \<open>dict.get\<close> returns \<open>None\<close> for a missing key; \<open>OrderedDict.__setitem__\<close> overwrites the
  value of a present key where it stands and appends a new key at the end;
  \<open>popitem(last=False)\<close> removes the first item and raises \<open>KeyError\<close> on an empty dictionary.
\<close>

record ('k, 'v) LimitedSizeDict =
  size_limit :: "int option"
  entries :: "('k \<times> 'v) list"

definition od_get :: "('k \<times> 'v) list \<Rightarrow> 'k \<Rightarrow> 'v option" where
  "od_get xs k = map_of xs k"

fun od_setitem :: "'k \<Rightarrow> 'v \<Rightarrow> ('k \<times> 'v) list \<Rightarrow> ('k \<times> 'v) list" where
  "od_setitem k v [] = [(k, v)]"
| "od_setitem k v (p # ps) = (if fst p = k then (k, v) # ps else p # od_setitem k v ps)"

text \<open>The \<open>while len(self) > self.size_limit: self.popitem(last=False)\<close> loop; the first
  component is the exception that ended it, if any.\<close>

fun check_size_limit_loop :: "int \<Rightarrow> ('k \<times> 'v) list \<Rightarrow> exn option \<times> ('k \<times> 'v) list" where
  "check_size_limit_loop l xs =
     (if int (length xs) > l
      then (case xs of [] \<Rightarrow> (Some KeyError, []) | _ # ys \<Rightarrow> check_size_limit_loop l ys)
      else (None, xs))"

definition check_size_limit ::
  "('k, 'v) LimitedSizeDict \<Rightarrow> exn option \<times> ('k, 'v) LimitedSizeDict" where
  "check_size_limit d =
     (case size_limit d of
        None \<Rightarrow> (None, d)
      | Some l \<Rightarrow>
          (case check_size_limit_loop l (entries d) of
             (r, xs) \<Rightarrow> (r, d\<lparr>entries := xs\<rparr>)))"

definition lsd_init :: "int option \<Rightarrow> exn option \<times> ('k, 'v) LimitedSizeDict" where
  "lsd_init limit = check_size_limit \<lparr>size_limit = limit, entries = []\<rparr>"

definition lsd_setitem ::
  "('k, 'v) LimitedSizeDict \<Rightarrow> 'k \<Rightarrow> 'v \<Rightarrow> exn option \<times> ('k, 'v) LimitedSizeDict" where
  "lsd_setitem d k v = check_size_limit (d\<lparr>entries := od_setitem k v (entries d)\<rparr>)"

section \<open>neo/api/JSONRPC/auth.py: the credential checker\<close>

datatype interface = IUsernamePassword | IAnonymous | IUsernameHashedPassword

datatype credentials =
    UsernamePassword (cred_username: "byte list") (cred_password: "byte list")
  | Anonymous
  | UsernameHashedPassword "byte list" "byte list"

fun providedBy :: "interface \<Rightarrow> credentials \<Rightarrow> bool" where
  "providedBy IUsernamePassword (UsernamePassword _ _) = True"
| "providedBy IAnonymous Anonymous = True"
| "providedBy IUsernameHashedPassword (UsernameHashedPassword _ _) = True"
| "providedBy _ _ = False"

datatype 'a deferred = succeed 'a | fail exn

text \<open>
  The checker's own fields; \<open>password\<close> holds the derived key that \<open>to_aes_key\<close> returns,
  a function of \<open>neo.Wallets.utils\<close> that the definitions below take as a parameter.
\<close>

record 'key BasicUserPassCredentialChecker =
  username :: pystr
  password :: 'key

text \<open>
  The state the checker works on: the class attribute \<open>consecutive_errors_history\<close> and the
  durations, in seconds, handed to \<open>time.sleep\<close> so far.
\<close>

record auth_state =
  consecutive_errors_history :: "(pystr, int) LimitedSizeDict"
  slept :: "rat list"

definition credentialInterfaces :: "interface list" where
  "credentialInterfaces = [IUsernamePassword]"

text \<open>
  \<open>time.sleep\<close> turns its argument into a signed 64-bit count of nanoseconds before it
  sleeps: a duration of more than \<open>2^63 - 1\<close> nanoseconds raises \<open>OverflowError\<close> and a negative
  one raises \<open>ValueError\<close>, at once and without sleeping.
\<close>

definition time_sleep :: "rat \<Rightarrow> auth_state \<Rightarrow> exn option \<times> auth_state" where
  "time_sleep secs s =
     (if secs * 10 ^ 9 > 2 ^ 63 - 1 then (Some OverflowError, s)
      else if secs < 0 then (Some ValueError, s)
      else (None, s\<lparr>slept := slept s @ [secs]\<rparr>))"

definition backoff :: "int \<Rightarrow> rat \<Rightarrow> auth_state \<Rightarrow> exn option \<times> auth_state" where
  "backoff n t s = time_sleep (t * 2 powi (n - 1)) s"

definition record_first_error ::
  "pystr \<Rightarrow> (pystr, int) LimitedSizeDict \<Rightarrow> (exn + int) \<times> (pystr, int) LimitedSizeDict" where
  "record_first_error u h =
     (case lsd_setitem h u 1 of
        (Some e, h') \<Rightarrow> (Inl e, h')
      | (None, h') \<Rightarrow> (Inr 1, h'))"

definition get_consecutive_errors ::
  "(pystr, int) LimitedSizeDict \<Rightarrow> pystr \<Rightarrow> (exn + int) \<times> (pystr, int) LimitedSizeDict" where
  "get_consecutive_errors h u =
     (case od_get (entries h) u of
        Some c \<Rightarrow>
          if c \<noteq> 0 then
            (if c < 100 then
               (case lsd_setitem h u (c + 1) of
                  (Some e, h') \<Rightarrow> (Inl e, h')
                | (None, h') \<Rightarrow> (Inr (c + 1), h'))
             else (Inr c, h))
          else record_first_error u h
      | None \<Rightarrow> record_first_error u h)"

text \<open>The \<open>for\<close> loop over \<open>credentialInterfaces\<close>: its body either breaks or raises, so the
  first interface decides.\<close>

fun check_interfaces :: "interface list \<Rightarrow> credentials \<Rightarrow> exn + unit" where
  "check_interfaces [] c = Inr ()"
| "check_interfaces (i # rest) c =
     (if providedBy i c then Inr () else Inl UnhandledCredentials)"

definition login_failed ::
  "pystr \<Rightarrow> auth_state \<Rightarrow> (exn + byte list deferred) \<times> auth_state" where
  "login_failed u s =
     (case get_consecutive_errors (consecutive_errors_history s) u of
        (Inl e, h') \<Rightarrow> (Inl e, s\<lparr>consecutive_errors_history := h'\<rparr>)
      | (Inr n, h') \<Rightarrow>
          (case backoff n 2 (s\<lparr>consecutive_errors_history := h'\<rparr>) of
             (Some e, s') \<Rightarrow> (Inl e, s')
           | (None, s') \<Rightarrow>
               (Inr (fail (UnauthorizedLogin ''Invalid username or password'')), s')))"

definition requestAvatarId ::
  "(pystr \<Rightarrow> 'key) \<Rightarrow> 'key BasicUserPassCredentialChecker \<Rightarrow> credentials \<Rightarrow> auth_state
     \<Rightarrow> (exn + byte list deferred) \<times> auth_state" where
  "requestAvatarId to_aes_key self c s =
     (case check_interfaces credentialInterfaces c of
        Inl e \<Rightarrow> (Inl e, s)
      | Inr _ \<Rightarrow>
          (case c of
             UsernamePassword un pw \<Rightarrow>
               (case utf8_decode un of
                  None \<Rightarrow> (Inl UnicodeDecodeError, s)
                | Some u \<Rightarrow>
                    if u = username self then
                      (case utf8_decode pw of
                         None \<Rightarrow> (Inl UnicodeDecodeError, s)
                       | Some p \<Rightarrow>
                           if to_aes_key p = password self then (Inr (succeed un), s)
                           else login_failed u s)
                    else login_failed u s)
           | _ \<Rightarrow> (Inl AttributeError, s)))"


fun record_failures ::
  "(pystr, int) LimitedSizeDict \<Rightarrow> pystr list \<Rightarrow> (pystr, int) LimitedSizeDict" where
  "record_failures h [] = h"
| "record_failures h (u # us) = record_failures (snd (get_consecutive_errors h u)) us"


section \<open>neo/api/utils.py: the response decorators\<close>

definition COMPRESS_FASTEST :: nat where "COMPRESS_FASTEST = 1"
definition BASE_STRING_SIZE :: nat where "BASE_STRING_SIZE = 49"
definition MTU_TCP_PACKET_SIZE :: nat where "MTU_TCP_PACKET_SIZE = 1500"
definition COMPRESS_THRESHOLD :: nat where
  "COMPRESS_THRESHOLD = MTU_TCP_PACKET_SIZE + BASE_STRING_SIZE"

text \<open>
  The Twisted request as the decorators use it: \<open>requestHeaders.getRawHeaders\<close> gives the
  values of a request header or \<open>None\<close>, and \<open>setHeader\<close> sets a response header, replacing
  what was there. A header value is a string, or the integer that \<open>len\<close> returned.
\<close>

datatype header_value = HStr string | HInt int

record request =
  getRawHeaders :: "string \<Rightarrow> string list option"
  responseHeaders :: "string \<Rightarrow> header_value option"

definition setHeader :: "string \<Rightarrow> header_value \<Rightarrow> request \<Rightarrow> request" where
  "setHeader name v rq = rq\<lparr>responseHeaders := (responseHeaders rq)(name \<mapsto> v)\<rparr>"

text \<open>A handler's result is a \<open>dict\<close> or \<open>list\<close>, which \<open>json.dumps\<close> serializes, or a string that
  is passed on as it is. The body returned is that text, or the bytes \<open>gzip.compress\<close> made.
  \<open>json.dumps\<close> and \<open>gzip.compress\<close> are parameters of the model.\<close>

datatype 'j handler_result = Structured 'j | Serialized pystr

datatype body = Text pystr | Bytes "byte list"

text \<open>Python's \<open>needle in hay\<close> on strings.\<close>

fun str_contains :: "string \<Rightarrow> string \<Rightarrow> bool" where
  "str_contains hay needle =
     (take (length needle) hay = needle \<or>
      (case hay of [] \<Rightarrow> False | _ # rest \<Rightarrow> str_contains rest needle))"

definition response_data_cb ::
  "('j \<Rightarrow> pystr) \<Rightarrow> (byte list \<Rightarrow> nat \<Rightarrow> byte list) \<Rightarrow> 'j handler_result \<Rightarrow> request
     \<Rightarrow> (exn + body) \<times> request" where
  "response_data_cb json_dumps gzip_compress res rq0 =
     (let response_data = (case res of Structured j \<Rightarrow> json_dumps j | Serialized t \<Rightarrow> t);
          rq = setHeader ''Content-Type'' (HStr ''application/json'') rq0
      in if length response_data > COMPRESS_THRESHOLD then
           (case getRawHeaders rq ''Accept-Encoding'' of
              None \<Rightarrow> (Inr (Text response_data), rq)
            | Some accepted_encodings \<Rightarrow>
                if accepted_encodings \<noteq> [] then
                  (let use_gzip = list_ex (\<lambda>encoding. str_contains encoding ''gzip'')
                                          accepted_encodings
                   in if use_gzip then
                        (case utf8_encode response_data of
                           None \<Rightarrow> (Inl UnicodeEncodeError, rq)
                         | Some raw \<Rightarrow>
                             (let compressed = gzip_compress raw COMPRESS_FASTEST;
                                  rq1 = setHeader ''Content-Encoding'' (HStr ''gzip'') rq;
                                  rq2 = setHeader ''Content-Length''
                                          (HInt (int (length compressed))) rq1
                              in (Inr (Bytes compressed), rq2)))
                      else (Inr (Text response_data), rq))
                else (Inr (Text response_data), rq))
         else (Inr (Text response_data), rq))"

text \<open>The serialized payload of a handler's result, a text whose \<open>length\<close> counts its
  characters, and whether some \<open>Accept-Encoding\<close> value of a request contains the substring
  \<open>gzip\<close>; both name what \<open>response_data_cb\<close> computes on its way.\<close>

definition payload_of :: "('j \<Rightarrow> pystr) \<Rightarrow> 'j handler_result \<Rightarrow> pystr" where
  "payload_of json_dumps res = (case res of Structured j \<Rightarrow> json_dumps j | Serialized t \<Rightarrow> t)"

definition mentions_gzip :: "request \<Rightarrow> bool" where
  "mentions_gzip rq =
     (case getRawHeaders rq ''Accept-Encoding'' of
        None \<Rightarrow> False
      | Some encs \<Rightarrow> list_ex (\<lambda>encoding. str_contains encoding ''gzip'') encs)"

text \<open>\<open>Deferred.addCallback\<close>: the callback runs on the result of a deferred that succeeded,
  an exception it raises turns the deferred into a failed one, and a failed deferred skips
  the callback.\<close>

definition addCallback ::
  "'a deferred \<times> request \<Rightarrow> ('a \<Rightarrow> request \<Rightarrow> (exn + 'b) \<times> request)
     \<Rightarrow> 'b deferred \<times> request" where
  "addCallback d cb =
     (case d of
        (succeed res, rq) \<Rightarrow>
          (case cb res rq of
             (Inr v, rq') \<Rightarrow> (succeed v, rq')
           | (Inl e, rq') \<Rightarrow> (fail e, rq'))
      | (fail e, rq) \<Rightarrow> (fail e, rq))"

text \<open>The decorated function \<open>func\<close> returns its deferred, given here with the request as it
  is when the deferred fires.\<close>

definition json_response ::
  "('j \<Rightarrow> pystr) \<Rightarrow> (byte list \<Rightarrow> nat \<Rightarrow> byte list)
     \<Rightarrow> (request \<Rightarrow> 'j handler_result deferred \<times> request)
     \<Rightarrow> request \<Rightarrow> body deferred \<times> request" where
  "json_response json_dumps gzip_compress func rq =
     addCallback (func rq) (response_data_cb json_dumps gzip_compress)"

definition cors_request_cb :: "'a \<Rightarrow> request \<Rightarrow> (exn + 'a) \<times> request" where
  "cors_request_cb res rq =
     (let rq1 = setHeader ''Access-Control-Allow-Origin'' (HStr ''*'') rq;
          rq2 = setHeader ''Access-Control-Allow-Headers''
                  (HStr ''Content-Type, Access-Control-Allow-Headers, Authorization, X-Requested-With'')
                  rq1
      in (Inr res, rq2))"

definition cors_header ::
  "(request \<Rightarrow> 'a deferred \<times> request) \<Rightarrow> request \<Rightarrow> 'a deferred \<times> request" where
  "cors_header func rq = addCallback (func rq) cors_request_cb"

text \<open>Two handlers and a request for the examples: one whose deferred fails, one whose
  deferred succeeds with a short string, and a request without headers.\<close>

definition failing_handler :: "request \<Rightarrow> unit handler_result deferred \<times> request" where
  "failing_handler rq = (fail (CollaboratorError ''handler failed''), rq)"

definition ok_handler :: "request \<Rightarrow> unit handler_result deferred \<times> request" where
  "ok_handler rq = (succeed (Serialized [123, 125]), rq)"

text \<open>Further examples: a stand-in for \<open>json.dumps\<close> and one for \<open>gzip.compress\<close>, which
  returns the level as its only octet; a handler returning 1000 euro signs (3000 octets in
  UTF-8) and one returning 1550 letters; a request accepting \<open>gzip\<close> and one refusing it with
  a quality value of 0.\<close>

definition example_dumps :: "unit \<Rightarrow> pystr" where
  "example_dumps j = [123, 125]"

definition example_gzip :: "byte list \<Rightarrow> nat \<Rightarrow> byte list" where
  "example_gzip raw level = [of_nat level]"

definition euro_handler :: "request \<Rightarrow> unit handler_result deferred \<times> request" where
  "euro_handler rq = (succeed (Serialized (replicate 1000 8364)), rq)"

definition long_handler :: "request \<Rightarrow> unit handler_result deferred \<times> request" where
  "long_handler rq = (succeed (Serialized (replicate 1550 97)), rq)"

definition gzip_request :: request where
  "gzip_request =
     \<lparr>getRawHeaders = [''Accept-Encoding'' \<mapsto> [''gzip'']], responseHeaders = Map.empty\<rparr>"

definition refusing_request :: request where
  "refusing_request =
     \<lparr>getRawHeaders = [''Accept-Encoding'' \<mapsto> [''identity, gzip;q=0'']],
      responseHeaders = Map.empty\<rparr>"

definition bare_request :: request where
  "bare_request = \<lparr>getRawHeaders = Map.empty, responseHeaders = Map.empty\<rparr>"

section \<open>neo/bin/api\_server.py: the shutdown tail of \<open>main\<close>\<close>

text \<open>
  After \<open>reactor.run()\<close> has returned, \<open>main\<close> calls its collaborators one after the other.
  The calls are recorded in a trace; which of them raise, and what, is given by the
  association list \<open>failing\<close>. A statement that raises ends \<open>main\<close> with that exception.
\<close>

datatype call =
    Logger_info string
  | NotificationDB_close
  | Blockchain_Default_Dispose
  | NodeLeader_Instance_Shutdown
  | Wallet_Close

fun run_calls :: "(call \<times> exn) list \<Rightarrow> call list \<Rightarrow> call list \<Rightarrow> exn option \<times> call list" where
  "run_calls failing [] trace = (None, trace)"
| "run_calls failing (c # cs) trace =
     (case map_of failing c of
        Some e \<Rightarrow> (Some e, trace @ [c])
      | None \<Rightarrow> run_calls failing cs (trace @ [c]))"

definition shutdown_calls :: "'w option \<Rightarrow> call list" where
  "shutdown_calls wallet =
     [Logger_info ''Closing databases...'', NotificationDB_close, Blockchain_Default_Dispose,
      NodeLeader_Instance_Shutdown]
     @ (case wallet of Some _ \<Rightarrow> [Wallet_Close] | None \<Rightarrow> [])"

definition main_shutdown :: "(call \<times> exn) list \<Rightarrow> 'w option \<Rightarrow> exn option \<times> call list" where
  "main_shutdown failing wallet = run_calls failing (shutdown_calls wallet) []"

section \<open>neo/api/JSONRPC/auth.py: the realm and the guarded resource\<close>

text \<open>
  \<open>guard_resource_with_http_auth\<close> builds Twisted objects: a \<open>Portal\<close> over the realm and the
  two checkers, wrapped in an \<open>HTTPAuthSessionWrapper\<close>. Their behaviour is that of the
  Twisted library: a portal keeps one checker for each credential interface, the later
  registration winning, and \<open>login\<close> hands the credentials to the checker registered for an
  interface they provide and the avatar id to \<open>realm.requestAvatar\<close>; the wrapper logs in with
  \<open>Anonymous()\<close> when the request has no \<open>Authorization\<close> header, with the decoded credentials
  when it has a well-formed Basic one, and answers 401 otherwise and when the login fails
  with an \<open>Unauthorized\<close> or \<open>LoginFailed\<close> error.
\<close>

datatype avatarId = ANONYMOUS | Principal "byte list"

datatype 'key checker = UserPass "'key BasicUserPassCredentialChecker" | AllowAnonymousAccess

datatype 'w api = ExtendedJsonRpcApi int "'w option" | ExtendedJsonRpcApiAuth int "'w option"

record 'w HTTPAuthRealm =
  port_rpc :: int
  wallet :: "'w option"

definition requestAvatar :: "'w HTTPAuthRealm \<Rightarrow> avatarId \<Rightarrow> 'w api" where
  "requestAvatar self avatarId =
     (if avatarId \<noteq> ANONYMOUS then ExtendedJsonRpcApiAuth (port_rpc self) (wallet self)
      else ExtendedJsonRpcApi (port_rpc self) (wallet self))"

record ('key, 'w) Portal =
  realm :: "'w HTTPAuthRealm"
  checkers :: "(interface \<times> 'key checker) list"

definition checker_interfaces :: "'key checker \<Rightarrow> interface list" where
  "checker_interfaces ch =
     (case ch of UserPass _ \<Rightarrow> credentialInterfaces | AllowAnonymousAccess \<Rightarrow> [IAnonymous])"

definition registerChecker ::
  "'key checker \<Rightarrow> (interface \<times> 'key checker) list \<Rightarrow> (interface \<times> 'key checker) list" where
  "registerChecker ch reg = fold (\<lambda>i r. od_setitem i ch r) (checker_interfaces ch) reg"

definition new_Portal :: "'w HTTPAuthRealm \<Rightarrow> 'key checker list \<Rightarrow> ('key, 'w) Portal" where
  "new_Portal r chs = \<lparr>realm = r, checkers = fold registerChecker chs []\<rparr>"

definition checker_requestAvatarId ::
  "(pystr \<Rightarrow> 'key) \<Rightarrow> 'key checker \<Rightarrow> credentials \<Rightarrow> auth_state
     \<Rightarrow> (exn + avatarId deferred) \<times> auth_state" where
  "checker_requestAvatarId to_aes_key ch c s =
     (case ch of
        AllowAnonymousAccess \<Rightarrow> (Inr (succeed ANONYMOUS), s)
      | UserPass self \<Rightarrow>
          (case requestAvatarId to_aes_key self c s of
             (Inr (succeed name), s') \<Rightarrow> (Inr (succeed (Principal name)), s')
           | (Inr (fail e), s') \<Rightarrow> (Inr (fail e), s')
           | (Inl e, s') \<Rightarrow> (Inl e, s')))"

fun find_checker :: "(interface \<times> 'key checker) list \<Rightarrow> credentials \<Rightarrow> 'key checker option" where
  "find_checker [] c = None"
| "find_checker ((i, ch) # rest) c = (if providedBy i c then Some ch else find_checker rest c)"

definition login ::
  "(pystr \<Rightarrow> 'key) \<Rightarrow> ('key, 'w) Portal \<Rightarrow> credentials \<Rightarrow> auth_state
     \<Rightarrow> 'w api deferred \<times> auth_state" where
  "login to_aes_key portal c s =
     (case find_checker (checkers portal) c of
        None \<Rightarrow> (fail UnhandledCredentials, s)
      | Some ch \<Rightarrow>
          (case checker_requestAvatarId to_aes_key ch c s of
             (Inr (succeed a), s') \<Rightarrow> (succeed (requestAvatar (realm portal) a), s')
           | (Inr (fail e), s') \<Rightarrow> (fail e, s')
           | (Inl e, s') \<Rightarrow> (fail e, s')))"

text \<open>What the request carries in its \<open>Authorization\<close> header, and what the wrapper serves.\<close>

datatype authorization = NoAuthorization | Basic "byte list" "byte list" | Undecodable

datatype 'w served = Avatar "'w api" | UnauthorizedResource | ErrorPage int

definition is_login_failure :: "exn \<Rightarrow> bool" where
  "is_login_failure e =
     (case e of UnauthorizedLogin _ \<Rightarrow> True | UnhandledCredentials \<Rightarrow> True | _ \<Rightarrow> False)"

definition wrapper_login ::
  "(pystr \<Rightarrow> 'key) \<Rightarrow> ('key, 'w) Portal \<Rightarrow> credentials \<Rightarrow> auth_state
     \<Rightarrow> 'w served \<times> auth_state" where
  "wrapper_login to_aes_key portal c s =
     (case login to_aes_key portal c s of
        (succeed a, s') \<Rightarrow> (Avatar a, s')
      | (fail e, s') \<Rightarrow>
          (if is_login_failure e then UnauthorizedResource else ErrorPage 500, s'))"

datatype credential_factory = BasicCredentialFactory string

record ('key, 'w) HTTPAuthSessionWrapper =
  portal :: "('key, 'w) Portal"
  credentialFactories :: "credential_factory list"

definition authorizedResource ::
  "(pystr \<Rightarrow> 'key) \<Rightarrow> ('key, 'w) HTTPAuthSessionWrapper \<Rightarrow> authorization \<Rightarrow> auth_state
     \<Rightarrow> 'w served \<times> auth_state" where
  "authorizedResource to_aes_key self h s =
     (case h of
        NoAuthorization \<Rightarrow> wrapper_login to_aes_key (portal self) Anonymous s
      | Basic u p \<Rightarrow> wrapper_login to_aes_key (portal self) (UsernamePassword u p) s
      | Undecodable \<Rightarrow> (UnauthorizedResource, s))"

definition guard_resource_with_http_auth ::
  "'key BasicUserPassCredentialChecker \<Rightarrow> int \<Rightarrow> 'w option
     \<Rightarrow> ('key, 'w) HTTPAuthSessionWrapper" where
  "guard_resource_with_http_auth credentialChecker port w =
     (let chs = [UserPass credentialChecker, AllowAnonymousAccess];
          credentialFactory = BasicCredentialFactory ''auth''
      in \<lparr>portal = new_Portal \<lparr>port_rpc = port, wallet = w\<rparr> chs,
          credentialFactories = [credentialFactory]\<rparr>)"

section \<open>neo/Network/Payloads/VersionPayload.py: the version message\<close>

text \<open>
  The attributes of a \<open>VersionPayload\<close>; an attribute that is \<open>None\<close> in the class body can be
  \<open>None\<close> in an object. \<open>VersionPayload_class\<close> holds the class attributes, which an object
  built without arguments shows.
\<close>

record VersionPayload =
  Version :: "int option"
  Services :: "int option"
  Timestamp :: "int option"
  Port :: "int option"
  Nonce :: "int option"
  UserAgent :: "pystr option"
  StartHeight :: "int option"
  Relay :: bool

definition VersionPayload_class :: VersionPayload where
  "VersionPayload_class =
     \<lparr>Version = None, Services = None, Timestamp = None, Port = None, Nonce = None,
      UserAgent = None, StartHeight = Some 1, Relay = False\<rparr>"

subsection \<open>The binary writer and reader\<close>

text \<open>
  Modelled from the spec: \<open>neo.IO.BinaryWriter\<close> and \<open>neo.IO.BinaryReader\<close>, whose methods
  \<open>Serialize\<close> and \<open>Deserialize\<close> call, are not among the sources. Following section 4.1 of the
  specification, an unsigned integer of a fixed width is written in that many octets, least
  significant first; a string is written as its UTF-8 octets after their number as a
  variable-length integer of 1, 3, 5 or 9 octets; writing a value that does not fit fails;
  reading fails with \<open>Truncated\<close> when fewer octets remain than the field requires and with
  \<open>InvalidEncoding\<close> when a variable-length integer is not in its shortest form. The writer's
  stream is the list of octets written so far, the reader's the octets still to be read.
\<close>

text \<open>Modelled from the spec: the octets of a fixed-width unsigned integer.\<close>

fun le_encode :: "nat \<Rightarrow> nat \<Rightarrow> byte list" where
  "le_encode 0 v = []"
| "le_encode (Suc w) v = of_nat (v mod 256) # le_encode w (v div 256)"

fun le_decode :: "byte list \<Rightarrow> nat" where
  "le_decode [] = 0"
| "le_decode (b # bs) = unat b + 256 * le_decode bs"

text \<open>Modelled from the spec: \<open>WriteUInt8\<close>, \<open>WriteUInt16\<close>, \<open>WriteUInt32\<close> and \<open>WriteUInt64\<close> of the
  absent writer; \<open>None\<close> and a value outside the width are rejected.\<close>

definition pack_uint :: "nat \<Rightarrow> int option \<Rightarrow> byte list \<Rightarrow> exn + byte list" where
  "pack_uint w value stream =
     (case value of
        None \<Rightarrow> Inl StructError
      | Some v \<Rightarrow>
          if 0 \<le> v \<and> v < 256 ^ w then Inr (stream @ le_encode w (nat v))
          else Inl StructError)"

definition WriteUInt8 :: "int option \<Rightarrow> byte list \<Rightarrow> exn + byte list" where
  "WriteUInt8 = pack_uint 1"

definition WriteUInt16 :: "int option \<Rightarrow> byte list \<Rightarrow> exn + byte list" where
  "WriteUInt16 = pack_uint 2"

definition WriteUInt32 :: "int option \<Rightarrow> byte list \<Rightarrow> exn + byte list" where
  "WriteUInt32 = pack_uint 4"

definition WriteUInt64 :: "int option \<Rightarrow> byte list \<Rightarrow> exn + byte list" where
  "WriteUInt64 = pack_uint 8"

text \<open>Modelled from the spec: the variable-length integer of the absent writer, in 1, 3, 5 or
  9 octets depending on the magnitude.\<close>

definition varint_bytes :: "nat \<Rightarrow> byte list" where
  "varint_bytes v =
     (if v < 0xFD then [of_nat v]
      else if v \<le> 0xFFFF then 0xFD # le_encode 2 v
      else if v \<le> 0xFFFFFFFF then 0xFE # le_encode 4 v
      else 0xFF # le_encode 8 v)"

definition WriteVarInt :: "nat \<Rightarrow> byte list \<Rightarrow> exn + byte list" where
  "WriteVarInt v stream =
     (if v < 2 ^ 64 then Inr (stream @ varint_bytes v) else Inl StructError)"

text \<open>Modelled from the spec: \<open>WriteVarString\<close> of the absent writer, the UTF-8 octets of the
  string behind their number.\<close>

definition WriteVarString :: "pystr option \<Rightarrow> byte list \<Rightarrow> exn + byte list" where
  "WriteVarString value stream =
     (case value of
        None \<Rightarrow> Inl AttributeError
      | Some s \<Rightarrow>
          (case utf8_encode s of
             None \<Rightarrow> Inl UnicodeEncodeError
           | Some raw \<Rightarrow>
               (case WriteVarInt (length raw) stream of
                  Inl e \<Rightarrow> Inl e
                | Inr stream' \<Rightarrow> Inr (stream' @ raw))))"

text \<open>Modelled from the spec: \<open>WriteBool\<close> of the absent writer, one octet.\<close>

definition WriteBool :: "bool \<Rightarrow> byte list \<Rightarrow> exn + byte list" where
  "WriteBool b stream = Inr (stream @ [if b then 1 else 0])"

text \<open>Modelled from the spec: the reads of the absent reader. Each returns the value and
  the rest of the stream, or fails.\<close>

definition read_bytes :: "nat \<Rightarrow> byte list \<Rightarrow> exn + (byte list \<times> byte list)" where
  "read_bytes k stream =
     (if length stream < k then Inl Truncated else Inr (take k stream, drop k stream))"

definition unpack_uint :: "nat \<Rightarrow> byte list \<Rightarrow> exn + (int \<times> byte list)" where
  "unpack_uint w stream =
     (case read_bytes w stream of
        Inl e \<Rightarrow> Inl e
      | Inr (raw, rest) \<Rightarrow> Inr (int (le_decode raw), rest))"

definition ReadUInt8 :: "byte list \<Rightarrow> exn + (int \<times> byte list)" where
  "ReadUInt8 = unpack_uint 1"

definition ReadUInt16 :: "byte list \<Rightarrow> exn + (int \<times> byte list)" where
  "ReadUInt16 = unpack_uint 2"

definition ReadUInt32 :: "byte list \<Rightarrow> exn + (int \<times> byte list)" where
  "ReadUInt32 = unpack_uint 4"

definition ReadUInt64 :: "byte list \<Rightarrow> exn + (int \<times> byte list)" where
  "ReadUInt64 = unpack_uint 8"

text \<open>Modelled from the spec: the variable-length integer of the absent reader; the value
  behind a marker octet must need that marker.\<close>

definition read_marked :: "nat \<Rightarrow> nat \<Rightarrow> byte list \<Rightarrow> exn + (nat \<times> byte list)" where
  "read_marked w least stream =
     (case read_bytes w stream of
        Inl e \<Rightarrow> Inl e
      | Inr (raw, rest) \<Rightarrow>
          if le_decode raw < least then Inl InvalidEncoding else Inr (le_decode raw, rest))"

definition ReadVarInt :: "byte list \<Rightarrow> exn + (nat \<times> byte list)" where
  "ReadVarInt stream =
     (case read_bytes 1 stream of
        Inl e \<Rightarrow> Inl e
      | Inr (first, rest) \<Rightarrow>
          (let fb = le_decode first in
           if fb = 0xFD then read_marked 2 0xFD rest
           else if fb = 0xFE then read_marked 4 0x10000 rest
           else if fb = 0xFF then read_marked 8 0x100000000 rest
           else Inr (fb, rest)))"

text \<open>Modelled from the spec: \<open>ReadVarString\<close> of the absent reader returns the octets of the
  string; \<open>Deserialize\<close> decodes them.\<close>

definition ReadVarString :: "byte list \<Rightarrow> exn + (byte list \<times> byte list)" where
  "ReadVarString stream =
     (case ReadVarInt stream of
        Inl e \<Rightarrow> Inl e
      | Inr (n, rest) \<Rightarrow> read_bytes n rest)"

text \<open>Modelled from the spec: \<open>ReadBool\<close> of the absent reader, one octet, true unless zero.\<close>

definition ReadBool :: "byte list \<Rightarrow> exn + (bool \<times> byte list)" where
  "ReadBool stream =
     (case read_bytes 1 stream of
        Inl e \<Rightarrow> Inl e
      | Inr (raw, rest) \<Rightarrow> Inr (le_decode raw \<noteq> 0, rest))"

subsection \<open>\<open>Serialize\<close> and \<open>Deserialize\<close>\<close>

text \<open>\<open>Serialize\<close> returns the writer's stream, or the exception of the first write that
  fails.\<close>

definition Serialize :: "VersionPayload \<Rightarrow> byte list \<Rightarrow> exn + byte list" where
  "Serialize self writer =
     (case WriteUInt8 (Version self) writer of Inl e \<Rightarrow> Inl e | Inr w1 \<Rightarrow>
     (case WriteUInt64 (Services self) w1 of Inl e \<Rightarrow> Inl e | Inr w2 \<Rightarrow>
     (case WriteUInt32 (Timestamp self) w2 of Inl e \<Rightarrow> Inl e | Inr w3 \<Rightarrow>
     (case WriteUInt16 (Port self) w3 of Inl e \<Rightarrow> Inl e | Inr w4 \<Rightarrow>
     (case WriteUInt32 (Nonce self) w4 of Inl e \<Rightarrow> Inl e | Inr w5 \<Rightarrow>
     (case WriteVarString (UserAgent self) w5 of Inl e \<Rightarrow> Inl e | Inr w6 \<Rightarrow>
     (case WriteUInt32 (StartHeight self) w6 of Inl e \<Rightarrow> Inl e | Inr w7 \<Rightarrow>
      WriteBool (Relay self) w7)))))))"

text \<open>
  \<open>Deserialize\<close> assigns each attribute as soon as it is read. Its result is the exception
  raised, if any, with the object as the assignments made so far leave it and the stream
  that remained before the read that failed.
\<close>

definition Deserialize ::
  "VersionPayload \<Rightarrow> byte list \<Rightarrow> exn option \<times> VersionPayload \<times> byte list" where
  "Deserialize self r0 =
     (case ReadUInt8 r0 of Inl e \<Rightarrow> (Some e, self, r0) | Inr (v, r1) \<Rightarrow>
     (let s1 = self\<lparr>Version := Some v\<rparr> in
     (case ReadUInt64 r1 of Inl e \<Rightarrow> (Some e, s1, r1) | Inr (sv, r2) \<Rightarrow>
     (let s2 = s1\<lparr>Services := Some sv\<rparr> in
     (case ReadUInt32 r2 of Inl e \<Rightarrow> (Some e, s2, r2) | Inr (ts, r3) \<Rightarrow>
     (let s3 = s2\<lparr>Timestamp := Some ts\<rparr> in
     (case ReadUInt16 r3 of Inl e \<Rightarrow> (Some e, s3, r3) | Inr (po, r4) \<Rightarrow>
     (let s4 = s3\<lparr>Port := Some po\<rparr> in
     (case ReadUInt32 r4 of Inl e \<Rightarrow> (Some e, s4, r4) | Inr (no, r5) \<Rightarrow>
     (let s5 = s4\<lparr>Nonce := Some no\<rparr> in
     (case ReadVarString r5 of Inl e \<Rightarrow> (Some e, s5, r5) | Inr (raw, r6) \<Rightarrow>
     (case utf8_decode raw of None \<Rightarrow> (Some UnicodeDecodeError, s5, r6) | Some ua \<Rightarrow>
     (let s6 = s5\<lparr>UserAgent := Some ua\<rparr> in
     (case ReadUInt32 r6 of Inl e \<Rightarrow> (Some e, s6, r6) | Inr (sh, r7) \<Rightarrow>
     (let s7 = s6\<lparr>StartHeight := Some sh\<rparr> in
     (case ReadBool r7 of Inl e \<Rightarrow> (Some e, s7, r7) | Inr (b, r8) \<Rightarrow>
      (None, s7\<lparr>Relay := b\<rparr>, r8)))))))))))))))))"

subsection \<open>Valid messages and their layout\<close>

text \<open>A valid message has every attribute set, each integer within its width, and a user
  agent that has a UTF-8 encoding of fewer than \<open>2^64\<close> octets.\<close>

definition fits :: "nat \<Rightarrow> int option \<Rightarrow> bool" where
  "fits w value = (case value of None \<Rightarrow> False | Some v \<Rightarrow> 0 \<le> v \<and> v < 256 ^ w)"

definition valid_payload :: "VersionPayload \<Rightarrow> bool" where
  "valid_payload p =
     (fits 1 (Version p) \<and> fits 8 (Services p) \<and> fits 4 (Timestamp p) \<and> fits 2 (Port p) \<and>
      fits 4 (Nonce p) \<and> fits 4 (StartHeight p) \<and>
      (case UserAgent p of
         None \<Rightarrow> False
       | Some s \<Rightarrow> (case utf8_encode s of None \<Rightarrow> False | Some raw \<Rightarrow> length raw < 2 ^ 64)))"

text \<open>The layout the specification fixes: version, services, timestamp, port, nonce, user
  agent, start height, relay.\<close>

definition wire_layout :: "VersionPayload \<Rightarrow> byte list" where
  "wire_layout p =
     le_encode 1 (nat (the (Version p))) @
     le_encode 8 (nat (the (Services p))) @
     le_encode 4 (nat (the (Timestamp p))) @
     le_encode 2 (nat (the (Port p))) @
     le_encode 4 (nat (the (Nonce p))) @
     (varint_bytes (length (the (utf8_encode (the (UserAgent p))))) @
      the (utf8_encode (the (UserAgent p)))) @
     le_encode 4 (nat (the (StartHeight p))) @
     [if Relay p then 1 else 0]"

text \<open>A message for the examples: protocol version 0, the node-network service bit, the
  user agent \<open>/NEO:2.4.1/\<close>, relay on.\<close>

definition example_payload :: VersionPayload where
  "example_payload =
     \<lparr>Version = Some 0, Services = Some 1, Timestamp = Some 1500000000, Port = Some 10333,
      Nonce = Some 305419896,
      UserAgent = Some [47, 78, 69, 79, 58, 50, 46, 52, 46, 49, 47],
      StartHeight = Some 1, Relay = True\<rparr>"

section \<open>The UTF-8 codec\<close>

lemma unat_byte: "n < 256 \<Longrightarrow> unat (of_nat n :: byte) = n"
  by (simp add: unat_of_nat take_bit_nat_eq_self)

lemma mod64_le: "(c::nat) mod 64 \<le> 63"
proof -
  have "c mod 64 < 64" by simp
  then show ?thesis by linarith
qed

lemma split3: "(c::nat) div 4096 * 4096 + (c div 64) mod 64 * 64 + c mod 64 = c"
proof -
  have e: "c div 4096 = c div 64 div 64" by (simp add: div_mult2_eq [symmetric])
  have f1: "c div 64 div 64 * 64 + c div 64 mod 64 = c div 64" by (rule div_mult_mod_eq)
  have f2: "c div 64 * 64 + c mod 64 = c" by (rule div_mult_mod_eq)
  show ?thesis unfolding e using f1 f2 by linarith
qed

lemma split4:
  "(c::nat) div 262144 * 262144 + (c div 4096) mod 64 * 4096 + (c div 64) mod 64 * 64
     + c mod 64 = c"
proof -
  have e: "c div 262144 = c div 4096 div 64" by (simp add: div_mult2_eq [symmetric])
  have f1: "c div 4096 div 64 * 64 + c div 4096 mod 64 = c div 4096" by (rule div_mult_mod_eq)
  show ?thesis unfolding e using f1 split3 [of c] by linarith
qed


lemma dec2:
  assumes "2 \<le> a" "a \<le> 31" "d \<le> 63"
  shows "utf8_decode (of_nat (0xC0 + a) # of_nat (0x80 + d) # r)
         = map_option (Cons (a * 64 + d)) (utf8_decode r)"
proof -
  have u0: "unat (of_nat (0xC0 + a) :: byte) = 0xC0 + a"
    using assms by (intro unat_byte) simp
  have u1: "unat (of_nat (0x80 + d) :: byte) = 0x80 + d"
    using assms by (intro unat_byte) simp
  show ?thesis
    using assms by (simp add: u0 u1 is_cont_def Let_def del: of_nat_add)
qed


lemma dec3:
  assumes "a \<le> 15" "b \<le> 63" "d \<le> 63" "a = 0 \<Longrightarrow> 32 \<le> b" "a = 13 \<Longrightarrow> b \<le> 31"
  shows "utf8_decode (of_nat (0xE0 + a) # of_nat (0x80 + b) # of_nat (0x80 + d) # r)
         = map_option (Cons (a * 4096 + b * 64 + d)) (utf8_decode r)"
proof -
  have u0: "unat (of_nat (0xE0 + a) :: byte) = 0xE0 + a"
    using assms by (intro unat_byte) simp
  have u1: "unat (of_nat (0x80 + b) :: byte) = 0x80 + b"
    using assms by (intro unat_byte) simp
  have u2: "unat (of_nat (0x80 + d) :: byte) = 0x80 + d"
    using assms by (intro unat_byte) simp
  have s: "second_ok (0xE0 + a) (0x80 + b)"
    using assms by (auto simp: second_ok_def is_cont_def)
  have c: "is_cont (0x80 + d)" using assms by (simp add: is_cont_def)
  show ?thesis
    using assms(1) s c by (simp add: u0 u1 u2 Let_def del: of_nat_add)
qed

lemma dec4:
  assumes "a \<le> 4" "b \<le> 63" "c \<le> 63" "d \<le> 63" "a = 0 \<Longrightarrow> 16 \<le> b" "a = 4 \<Longrightarrow> b \<le> 15"
  shows "utf8_decode (of_nat (0xF0 + a) # of_nat (0x80 + b) # of_nat (0x80 + c)
                      # of_nat (0x80 + d) # r)
         = map_option (Cons (a * 262144 + b * 4096 + c * 64 + d)) (utf8_decode r)"
proof -
  have u0: "unat (of_nat (0xF0 + a) :: byte) = 0xF0 + a"
    using assms by (intro unat_byte) simp
  have u1: "unat (of_nat (0x80 + b) :: byte) = 0x80 + b"
    using assms by (intro unat_byte) simp
  have u2: "unat (of_nat (0x80 + c) :: byte) = 0x80 + c"
    using assms by (intro unat_byte) simp
  have u3: "unat (of_nat (0x80 + d) :: byte) = 0x80 + d"
    using assms by (intro unat_byte) simp
  have s: "second_ok (0xF0 + a) (0x80 + b)"
    using assms by (auto simp: second_ok_def is_cont_def)
  have k: "is_cont (0x80 + c)" "is_cont (0x80 + d)" using assms by (simp_all add: is_cont_def)
  show ?thesis
    using assms(1) s k by (simp add: u0 u1 u2 u3 Let_def del: of_nat_add)
qed

lemma utf8_cp_roundtrip:
  assumes "utf8_encode_cp c = Some e"
  shows "utf8_decode (e @ r) = map_option (Cons c) (utf8_decode r)"
proof -
  consider (one) "c < 0x80"
    | (two) "\<not> c < 0x80" "c < 0x800"
    | (three) "\<not> c < 0x800" "c < 0x10000" "\<not> (0xD800 \<le> c \<and> c \<le> 0xDFFF)"
    | (four) "\<not> c < 0x10000" "c < 0x110000"
    using assms by (auto simp: utf8_encode_cp_def split: if_splits)
  then show ?thesis
  proof cases
    case one
    then show ?thesis using assms by (auto simp: utf8_encode_cp_def unat_byte)
  next
    case two
    define a d where "a = c div 64" and "d = c mod 64"
    have e: "e = [of_nat (0xC0 + a), of_nat (0x80 + d)]"
      using assms two by (simp add: utf8_encode_cp_def a_def d_def)
    have v: "a * 64 + d = c" by (simp add: a_def d_def)
    have d: "d \<le> 63" unfolding d_def by (rule mod64_le)
    have a: "2 \<le> a" "a \<le> 31" using two v d by linarith+
    show ?thesis unfolding e using dec2 [OF a d, of r] v by simp
  next
    case three
    define a b d where "a = c div 4096" and "b = (c div 64) mod 64" and "d = c mod 64"
    have e: "e = [of_nat (0xE0 + a), of_nat (0x80 + b), of_nat (0x80 + d)]"
      using assms three by (simp add: utf8_encode_cp_def a_def b_def d_def)
    have v: "a * 4096 + b * 64 + d = c" unfolding a_def b_def d_def by (rule split3)
    have d: "d \<le> 63" unfolding d_def by (rule mod64_le)
    have b: "b \<le> 63" unfolding b_def by (rule mod64_le)
    have a: "a \<le> 15" using three v d b by linarith
    have lo: "a = 0 \<Longrightarrow> 32 \<le> b" using three v d b by linarith
    have hi: "a = 13 \<Longrightarrow> b \<le> 31" using three v d b by linarith
    show ?thesis unfolding e using dec3 [OF a b d lo hi, of r] v by simp
  next
    case four
    define a b k d where "a = c div 262144" and "b = (c div 4096) mod 64"
      and "k = (c div 64) mod 64" and "d = c mod 64"
    have e: "e = [of_nat (0xF0 + a), of_nat (0x80 + b), of_nat (0x80 + k), of_nat (0x80 + d)]"
      using assms four by (simp add: utf8_encode_cp_def a_def b_def k_def d_def)
    have v: "a * 262144 + b * 4096 + k * 64 + d = c"
      unfolding a_def b_def k_def d_def by (rule split4)
    have d: "d \<le> 63" unfolding d_def by (rule mod64_le)
    have k: "k \<le> 63" unfolding k_def by (rule mod64_le)
    have b: "b \<le> 63" unfolding b_def by (rule mod64_le)
    have a: "a \<le> 4" using four v d b k by linarith
    have lo: "a = 0 \<Longrightarrow> 16 \<le> b" using four v d b k by linarith
    have hi: "a = 4 \<Longrightarrow> b \<le> 15" using four v d b k by linarith
    show ?thesis unfolding e using dec4 [OF a b k d lo hi, of r] v by simp
  qed
qed

lemma utf8_roundtrip: "utf8_encode s = Some raw \<Longrightarrow> utf8_decode raw = Some s"
proof (induction s arbitrary: raw)
  case Nil
  then show ?case by simp
next
  case (Cons c cs)
  then obtain e rest where e: "utf8_encode_cp c = Some e" and r: "utf8_encode cs = Some rest"
    and raw: "raw = e @ rest"
    by (auto split: option.splits)
  show ?case unfolding raw using utf8_cp_roundtrip [OF e, of rest] Cons.IH [OF r] by simp
qed

section \<open>Facts about the ordered dictionary\<close>

declare check_size_limit_loop.simps [simp del]

lemma check_size_limit_loop_nonneg:
  "0 \<le> l \<Longrightarrow> check_size_limit_loop l xs = (None, drop (length xs - nat l) xs)"
proof (induction xs)
  case Nil
  then show ?case by (simp add: check_size_limit_loop.simps)
next
  case (Cons x xs)
  show ?case
  proof (cases "int (length (x # xs)) > l")
    case True
    then have "length (x # xs) - nat l = Suc (length xs - nat l)"
      using Cons.prems by (simp add: Suc_diff_le nat_le_iff)
    then show ?thesis
      using True Cons by (simp add: check_size_limit_loop.simps [of l "x # xs"])
  next
    case False
    then have "length (x # xs) - nat l = 0" by (simp add: le_nat_iff)
    then show ?thesis
      using False by (simp add: check_size_limit_loop.simps [of l "x # xs"])
  qed
qed

lemma lsd_setitem_limit:
  "size_limit h = Some l \<Longrightarrow> 0 \<le> l \<Longrightarrow>
   lsd_setitem h k v =
     (None, h\<lparr>entries := drop (length (od_setitem k v (entries h)) - nat l)
                              (od_setitem k v (entries h))\<rparr>)"
  by (simp add: lsd_setitem_def check_size_limit_def check_size_limit_loop_nonneg)

lemma od_setitem_absent: "k \<notin> fst ` set xs \<Longrightarrow> od_setitem k v xs = xs @ [(k, v)]"
  by (induction xs) auto

lemma od_setitem_present_keys:
  "k \<in> fst ` set xs \<Longrightarrow> map fst (od_setitem k v xs) = map fst xs"
  by (induction xs) auto

lemma length_od_setitem_present:
  "k \<in> fst ` set xs \<Longrightarrow> length (od_setitem k v xs) = length xs"
  by (induction xs) auto


lemma od_get_Some_key: "od_get xs k = Some c \<Longrightarrow> k \<in> fst ` set xs"
  by (metis od_get_def map_of_eq_None_iff option.distinct(1))

lemma od_get_None_key: "od_get xs k = None \<longleftrightarrow> k \<notin> fst ` set xs"
  by (simp add: od_get_def map_of_eq_None_iff)

text \<open>The class attribute \<open>consecutive_errors_history = LimitedSizeDict(size_limit=100)\<close> is
  the empty dictionary of capacity 100.\<close>

lemma lsd_init_100:
  "lsd_init (Some 100) = (None, \<lparr>size_limit = Some 100, entries = []\<rparr>)"
  by (simp add: lsd_init_def check_size_limit_def check_size_limit_loop.simps)

section \<open>The credential checker\<close>

lemma gce_untracked:
  assumes "size_limit h = Some 100" "od_get (entries h) u = None"
  shows "get_consecutive_errors h u =
           (Inr 1, h\<lparr>entries := drop (length (entries h) - 99) (entries h) @ [(u, 1)]\<rparr>)"
proof -
  have k: "u \<notin> fst ` set (entries h)" using assms(2) by (simp add: od_get_None_key)
  have "drop (Suc (length (entries h)) - 100) (entries h @ [(u, 1::int)])
        = drop (length (entries h) - 99) (entries h) @ [(u, 1)]"
    by simp
  then show ?thesis
    using assms k
    by (simp add: get_consecutive_errors_def record_first_error_def lsd_setitem_limit
        od_setitem_absent)
qed

lemma gce_tracked:
  assumes "size_limit h = Some 100" "od_get (entries h) u = Some c" "length (entries h) \<le> 100"
  shows "get_consecutive_errors h u =
           (if c \<noteq> 0 \<and> \<not> c < 100 then (Inr c, h)
            else (Inr (if c = 0 then 1 else c + 1),
                  h\<lparr>entries := od_setitem u (if c = 0 then 1 else c + 1) (entries h)\<rparr>))"
proof -
  have k: "u \<in> fst ` set (entries h)" using assms(2) by (rule od_get_Some_key)
  have "\<And>v. length (od_setitem u v (entries h)) - 100 = 0"
    using k assms(3) by (simp add: length_od_setitem_present)
  then show ?thesis
    using assms
    by (simp add: get_consecutive_errors_def record_first_error_def lsd_setitem_limit)
qed












lemma record_failures_new:
  assumes "size_limit h = Some 100" "length (entries h) \<le> 100"
    "distinct us" "set us \<inter> fst ` set (entries h) = {}"
  shows "entries (record_failures h us) =
           drop (length (entries h) + length us - 100) (entries h @ map (\<lambda>u. (u, 1)) us) \<and>
         size_limit (record_failures h us) = Some 100"
  using assms
proof (induction us arbitrary: h)
  case Nil
  then show ?case by simp
next
  case (Cons u us)
  let ?xs = "entries h"
  let ?h1 = "h\<lparr>entries := drop (length ?xs - 99) ?xs @ [(u, 1)]\<rparr>"
  have new: "od_get ?xs u = None"
    using Cons.prems(4) by (auto simp: od_get_None_key)
  have g: "get_consecutive_errors h u = (Inr 1, ?h1)"
    using Cons.prems(1) new by (rule gce_untracked)
  have keys: "set us \<inter> fst ` set (entries ?h1) = {}"
    using Cons.prems(3,4) by (auto dest: in_set_dropD)
  have len: "length (entries ?h1) \<le> 100" using Cons.prems(2) by auto
  have ih: "entries (record_failures ?h1 us) =
              drop (length (entries ?h1) + length us - 100)
                   (entries ?h1 @ map (\<lambda>u. (u, 1)) us) \<and>
            size_limit (record_failures ?h1 us) = Some 100"
    using Cons.prems(1,3) len keys by (intro Cons.IH) simp_all
  show ?case
  proof (cases "length ?xs = 100")
    case True
    then show ?thesis using ih g by (simp add: drop_Suc drop_tl)
  next
    case False
    then have "length ?xs - 99 = 0" using Cons.prems(2) by simp
    then show ?thesis using ih g by simp
  qed
qed




text \<open>
  Claim C8. Credentials that do not provide \<open>IUsernamePassword\<close> make \<open>requestAvatarId\<close>
  raise \<open>UnhandledCredentials\<close>; nothing is slept and the failure history is untouched.
\<close>

theorem unsupported_credentials_rejected:
  "\<not> providedBy IUsernamePassword c \<Longrightarrow>
   requestAvatarId to_aes_key self c s = (Inl UnhandledCredentials, s)"
  by (simp add: requestAvatarId_def credentialInterfaces_def)

theorem unsupported_credentials_rejected_witness:
  "requestAvatarId (\<lambda>p. p)
     \<lparr>username = [97, 108, 105, 99, 101], password = [115, 101, 99, 114, 101, 116]\<rparr>
     (UsernameHashedPassword [97, 108, 105, 99, 101] [1, 2, 3])
     \<lparr>consecutive_errors_history = \<lparr>size_limit = Some 100, entries = [([98, 111, 98], 7)]\<rparr>,
        slept = [2]\<rparr>
   = (Inl UnhandledCredentials,
      \<lparr>consecutive_errors_history = \<lparr>size_limit = Some 100, entries = [([98, 111, 98], 7)]\<rparr>,
         slept = [2]\<rparr>)"
proof -
  have "\<not> providedBy IUsernamePassword (UsernameHashedPassword [97, 108, 105, 99, 101] [1, 2, 3])"
    by simp
  then show ?thesis by (rule unsupported_credentials_rejected)
qed

text \<open>
  Claim C9. When the decoded username equals the configured one and the key derived from the
  decoded password equals the stored key, \<open>requestAvatarId\<close> returns the succeeded deferred
  carrying the username, and the whole state is as before: the failure history, and with it
  that user's count, is unchanged and nothing is slept.
\<close>

theorem success_keeps_history:
  assumes "utf8_decode un = Some (username self)"
    and "utf8_decode pw = Some p"
    and "to_aes_key p = password self"
  shows "requestAvatarId to_aes_key self (UsernamePassword un pw) s = (Inr (succeed un), s)"
  using assms by (simp add: requestAvatarId_def credentialInterfaces_def)

theorem success_keeps_history_witness:
  "requestAvatarId (\<lambda>p. p)
     \<lparr>username = [97, 108, 105, 99, 101], password = [115, 101, 99, 114, 101, 116]\<rparr>
     (UsernamePassword [97, 108, 105, 99, 101] [115, 101, 99, 114, 101, 116])
     \<lparr>consecutive_errors_history =
        \<lparr>size_limit = Some 100, entries = [([97, 108, 105, 99, 101], 3)]\<rparr>,
        slept = [2, 4, 8]\<rparr>
   = (Inr (succeed [97, 108, 105, 99, 101]),
      \<lparr>consecutive_errors_history =
         \<lparr>size_limit = Some 100, entries = [([97, 108, 105, 99, 101], 3)]\<rparr>,
         slept = [2, 4, 8]\<rparr>)"
proof -
  let ?self = "\<lparr>username = [97, 108, 105, 99, 101] :: pystr,
                password = [115, 101, 99, 114, 101, 116] :: pystr\<rparr>"
  have u: "utf8_decode [97, 108, 105, 99, 101] = Some (username ?self)" by simp
  have p: "utf8_decode [115, 101, 99, 114, 101, 116] = Some [115, 101, 99, 114, 101, 116]"
    by simp
  have k: "(\<lambda>p. p) [115, 101, 99, 114, 101, 116] = password ?self" by simp
  show ?thesis
    using success_keeps_history [of "[97, 108, 105, 99, 101]" ?self
        "[115, 101, 99, 114, 101, 116]" "[115, 101, 99, 114, 101, 116]" "\<lambda>p. p"] u p k
    by simp
qed


text \<open>
  Claim C3, as the code has it. With the capacity of 100: recording one failure each for 101
  different users, from the empty history, leaves the last 100 of them tracked and drops the
  first one recorded; recording an untracked user in a full history evicts the oldest entry
  and appends the new one; and recording a failure for a user that is already tracked leaves
  the order of the entries, which is the eviction order, as it was.
\<close>

theorem eviction_in_insertion_order:
  "(distinct us \<and> length us = 101 \<longrightarrow>
      map fst (entries (record_failures \<lparr>size_limit = Some 100, entries = []\<rparr> us)) = tl us) \<and>
   (size_limit h = Some 100 \<and> length (entries h) = 100 \<and> od_get (entries h) u = None \<longrightarrow>
      get_consecutive_errors h u = (Inr 1, h\<lparr>entries := tl (entries h) @ [(u, 1)]\<rparr>)) \<and>
   (size_limit h = Some 100 \<and> length (entries h) \<le> 100 \<and> od_get (entries h) v = Some c \<longrightarrow>
      map fst (entries (snd (get_consecutive_errors h v))) = map fst (entries h))"
proof (intro conjI impI)
  assume a: "distinct us \<and> length us = 101"
  let ?e = "\<lparr>size_limit = Some 100, entries = []\<rparr> :: (pystr, int) LimitedSizeDict"
  have "entries (record_failures ?e us) =
          drop (length (entries ?e) + length us - 100) (entries ?e @ map (\<lambda>u. (u, 1)) us)"
    using a by (intro record_failures_new [THEN conjunct1]) simp_all
  then show "map fst (entries (record_failures ?e us)) = tl us"
    using a by (simp add: drop_map comp_def drop_Suc)
next
  assume a: "size_limit h = Some 100 \<and> length (entries h) = 100 \<and> od_get (entries h) u = None"
  then show "get_consecutive_errors h u = (Inr 1, h\<lparr>entries := tl (entries h) @ [(u, 1)]\<rparr>)"
    by (simp add: gce_untracked drop_Suc)
next
  assume a: "size_limit h = Some 100 \<and> length (entries h) \<le> 100 \<and>
             od_get (entries h) v = Some c"
  then have "v \<in> fst ` set (entries h)" by (auto dest: od_get_Some_key)
  then show "map fst (entries (snd (get_consecutive_errors h v))) = map fst (entries h)"
    using a by (simp add: gce_tracked od_setitem_present_keys)
qed

theorem eviction_in_insertion_order_witness:
  "map fst (entries (record_failures \<lparr>size_limit = Some 100, entries = []\<rparr>
                       (map (\<lambda>i. [i]) [0..<101])))
     = tl (map (\<lambda>i. [i]) [0..<101]) \<and>
   get_consecutive_errors
       \<lparr>size_limit = Some 100, entries = map (\<lambda>i. ([i], 1)) [0..<100]\<rparr> [100]
     = (Inr 1, \<lparr>size_limit = Some 100,
                entries = tl (map (\<lambda>i. ([i], 1)) [0..<100]) @ [([100], 1)]\<rparr>) \<and>
   map fst (entries (snd (get_consecutive_errors
       \<lparr>size_limit = Some 100, entries = map (\<lambda>i. ([i], 1)) [0..<100]\<rparr> [0])))
     = map fst (map (\<lambda>i. ([i], 1 :: int)) [0..<100])"
proof -
  let ?us = "map (\<lambda>i. [i]) [0..<101] :: pystr list"
  let ?h = "\<lparr>size_limit = Some 100, entries = map (\<lambda>i. ([i], 1)) [0..<100]\<rparr>
            :: (pystr, int) LimitedSizeDict"
  have 1: "distinct ?us \<and> length ?us = 101"
    by (simp add: distinct_map inj_on_def)
  have "[100] \<notin> fst ` set (entries ?h)" by auto
  then have 2: "size_limit ?h = Some 100 \<and> length (entries ?h) = 100 \<and>
                od_get (entries ?h) [100] = None"
    by (simp add: od_get_None_key)
  have "[0..<100] = 0 # [1..<100]" by (simp add: upt_conv_Cons)
  then have 3: "size_limit ?h = Some 100 \<and> length (entries ?h) \<le> 100 \<and>
                od_get (entries ?h) [0] = Some 1"
    by (simp add: od_get_def)
  show ?thesis
    using eviction_in_insertion_order [of ?us ?h "[100]" "[0]" 1] 1 2 3 by simp
qed

text \<open>
  The claim's last part asks that a tracked user be moved to the most recent position when
  a failure is recorded. After failures of \<open>a\<close>, \<open>b\<close> and \<open>a\<close> again the order is still
  \<open>a\<close>, \<open>b\<close>: the most recent position holds \<open>b\<close>.
\<close>

theorem touch_keeps_position_counterexample:
  "map fst (entries (record_failures \<lparr>size_limit = Some 100, entries = []\<rparr>
                       [[97], [98], [97]])) = [[97], [98]] \<and>
   last (map fst (entries (record_failures \<lparr>size_limit = Some 100, entries = []\<rparr>
                       [[97], [98], [97]]))) \<noteq> [97]"
  by (simp add: get_consecutive_errors_def record_first_error_def lsd_setitem_def
      check_size_limit_def check_size_limit_loop.simps od_get_def)

section \<open>The response decorators\<close>

lemma threshold_value: "COMPRESS_THRESHOLD = 1549"
  by (simp add: COMPRESS_THRESHOLD_def MTU_TCP_PACKET_SIZE_def BASE_STRING_SIZE_def)

lemma response_data_cb_gating:
  "(length (payload_of json_dumps res) > 1549 \<and> mentions_gzip rq \<and>
    utf8_encode (payload_of json_dumps res) = Some raw
      \<longrightarrow> response_data_cb json_dumps gzip_compress res rq =
            (Inr (Bytes (gzip_compress raw 1)),
             setHeader ''Content-Length'' (HInt (int (length (gzip_compress raw 1))))
               (setHeader ''Content-Encoding'' (HStr ''gzip'')
                  (setHeader ''Content-Type'' (HStr ''application/json'') rq)))) \<and>
   (length (payload_of json_dumps res) > 1549 \<and> mentions_gzip rq \<and>
    utf8_encode (payload_of json_dumps res) = None
      \<longrightarrow> response_data_cb json_dumps gzip_compress res rq =
            (Inl UnicodeEncodeError,
             setHeader ''Content-Type'' (HStr ''application/json'') rq)) \<and>
   (length (payload_of json_dumps res) \<le> 1549 \<or> \<not> mentions_gzip rq
      \<longrightarrow> response_data_cb json_dumps gzip_compress res rq =
            (Inr (Text (payload_of json_dumps res)),
             setHeader ''Content-Type'' (HStr ''application/json'') rq))"
  unfolding payload_of_def mentions_gzip_def
  by (auto simp: response_data_cb_def threshold_value COMPRESS_FASTEST_def Let_def setHeader_def
      split: option.splits)

lemma utf8_encode_letters: "utf8_encode (replicate n 97) = Some (replicate n 97)"
  by (induction n) (simp_all add: utf8_encode_cp_def)

lemma utf8_encode_euros:
  "\<exists>raw. utf8_encode (replicate n 8364) = Some raw \<and> length raw = 3 * n"
  by (induction n) (auto simp: utf8_encode_cp_def)

text \<open>
  Claim C6, as the code has it. For a handler whose deferred succeeds, let \<open>data\<close> be the
  serialized payload, a text. If \<open>data\<close> has more than 1549 characters and some
  \<open>Accept-Encoding\<close> value of the request contains the substring \<open>gzip\<close>, \<open>json_response\<close> answers
  with the UTF-8 octets of \<open>data\<close> compressed at level \<open>COMPRESS_FASTEST = 1\<close> and sets
  \<open>Content-Encoding: gzip\<close> and \<open>Content-Length\<close> to the compressed length (a text that UTF-8
  cannot encode fails the deferred instead). If \<open>data\<close> has at most 1549 characters, or no
  \<open>Accept-Encoding\<close> value contains \<open>gzip\<close>, it answers with \<open>data\<close> itself and sets nothing but
  \<open>Content-Type\<close>. A handler whose deferred fails is passed on as it is.
\<close>

theorem json_response_gating:
  "(func rq = (succeed res, rq') \<and> length (payload_of json_dumps res) > 1549 \<and>
    mentions_gzip rq' \<and> utf8_encode (payload_of json_dumps res) = Some raw
      \<longrightarrow> json_response json_dumps gzip_compress func rq =
            (succeed (Bytes (gzip_compress raw 1)),
             setHeader ''Content-Length'' (HInt (int (length (gzip_compress raw 1))))
               (setHeader ''Content-Encoding'' (HStr ''gzip'')
                  (setHeader ''Content-Type'' (HStr ''application/json'') rq')))) \<and>
   (func rq = (succeed res, rq') \<and> length (payload_of json_dumps res) > 1549 \<and>
    mentions_gzip rq' \<and> utf8_encode (payload_of json_dumps res) = None
      \<longrightarrow> json_response json_dumps gzip_compress func rq =
            (fail UnicodeEncodeError,
             setHeader ''Content-Type'' (HStr ''application/json'') rq')) \<and>
   (func rq = (succeed res, rq') \<and>
    (length (payload_of json_dumps res) \<le> 1549 \<or> \<not> mentions_gzip rq')
      \<longrightarrow> json_response json_dumps gzip_compress func rq =
            (succeed (Text (payload_of json_dumps res)),
             setHeader ''Content-Type'' (HStr ''application/json'') rq')) \<and>
   (func rq = (fail e, rq')
      \<longrightarrow> json_response json_dumps gzip_compress func rq = (fail e, rq'))"
  using response_data_cb_gating [of json_dumps res rq' raw gzip_compress]
  by (auto simp: json_response_def addCallback_def)

theorem json_response_gating_witness:
  "json_response example_dumps example_gzip long_handler gzip_request =
     (succeed (Bytes [1]),
      setHeader ''Content-Length'' (HInt 1)
        (setHeader ''Content-Encoding'' (HStr ''gzip'')
           (setHeader ''Content-Type'' (HStr ''application/json'') gzip_request))) \<and>
   json_response example_dumps example_gzip long_handler bare_request =
     (succeed (Text (replicate 1550 97)),
      setHeader ''Content-Type'' (HStr ''application/json'') bare_request) \<and>
   json_response example_dumps example_gzip failing_handler bare_request =
     (fail (CollaboratorError ''handler failed''), bare_request)"
proof -
  have g: "mentions_gzip gzip_request"
    by (simp add: mentions_gzip_def gzip_request_def)
  have n: "\<not> mentions_gzip bare_request"
    by (simp add: mentions_gzip_def bare_request_def)
  have p: "payload_of example_dumps (Serialized (replicate 1550 97)) = replicate 1550 97"
    by (simp add: payload_of_def)
  have a: "json_response example_dumps example_gzip long_handler gzip_request =
     (succeed (Bytes [1]),
      setHeader ''Content-Length'' (HInt 1)
        (setHeader ''Content-Encoding'' (HStr ''gzip'')
           (setHeader ''Content-Type'' (HStr ''application/json'') gzip_request)))"
    using json_response_gating [where func = long_handler and rq = gzip_request
        and rq' = gzip_request and res = "Serialized (replicate 1550 97)"
        and json_dumps = example_dumps and gzip_compress = example_gzip
        and raw = "replicate 1550 97"]
      g utf8_encode_letters [of 1550]
    by (simp add: p long_handler_def example_gzip_def)
  have b: "json_response example_dumps example_gzip long_handler bare_request =
     (succeed (Text (replicate 1550 97)),
      setHeader ''Content-Type'' (HStr ''application/json'') bare_request)"
    using json_response_gating [where func = long_handler and rq = bare_request
        and rq' = bare_request and res = "Serialized (replicate 1550 97)"
        and json_dumps = example_dumps and gzip_compress = example_gzip]
      n
    by (simp add: p long_handler_def)
  have c: "json_response example_dumps example_gzip failing_handler bare_request =
     (fail (CollaboratorError ''handler failed''), bare_request)"
    using json_response_gating [where func = failing_handler and rq = bare_request
        and rq' = bare_request and e = "CollaboratorError ''handler failed''"
        and json_dumps = example_dumps and gzip_compress = example_gzip]
    by (simp add: failing_handler_def)
  show ?thesis by (intro conjI a b c)
qed

text \<open>
  The claim measures the payload in bytes and asks that the request declare acceptance of
  gzip. A payload of 1000 euro signs is 3000 octets long, far beyond 1549, and the request
  accepts gzip, yet the payload has only 1000 characters and is left uncompressed and
  untagged.
\<close>

theorem long_bytes_left_uncompressed_counterexample:
  "length (the (utf8_encode (replicate 1000 8364))) = 3000 \<and>
   mentions_gzip gzip_request \<and>
   json_response example_dumps example_gzip euro_handler gzip_request =
     (succeed (Text (replicate 1000 8364)),
      setHeader ''Content-Type'' (HStr ''application/json'') gzip_request) \<and>
   responseHeaders (snd (json_response example_dumps example_gzip euro_handler gzip_request))
     ''Content-Encoding'' = None"
proof -
  obtain raw where r: "utf8_encode (replicate 1000 8364) = Some raw" "length raw = 3 * 1000"
    using utf8_encode_euros [of 1000] by blast
  have l: "length (the (utf8_encode (replicate 1000 8364))) = 3000" using r by simp
  have g: "mentions_gzip gzip_request"
    by (simp add: mentions_gzip_def gzip_request_def)
  have j: "json_response example_dumps example_gzip euro_handler gzip_request =
     (succeed (Text (replicate 1000 8364)),
      setHeader ''Content-Type'' (HStr ''application/json'') gzip_request)"
    by (simp add: json_response_def addCallback_def euro_handler_def response_data_cb_def
        threshold_value Let_def)
  have h: "responseHeaders (snd (json_response example_dumps example_gzip euro_handler
                                   gzip_request)) ''Content-Encoding'' = None"
    unfolding j by (simp add: setHeader_def gzip_request_def)
  show ?thesis by (intro conjI l g j h)
qed

text \<open>
  The substring test also takes a refusal for acceptance: with
  \<open>Accept-Encoding: identity, gzip;q=0\<close> a payload of 1550 letters is compressed and tagged.
\<close>

lemma refused_gzip_is_compressed:
  "json_response example_dumps example_gzip long_handler refusing_request =
     (succeed (Bytes [1]),
      setHeader ''Content-Length'' (HInt 1)
        (setHeader ''Content-Encoding'' (HStr ''gzip'')
           (setHeader ''Content-Type'' (HStr ''application/json'') refusing_request)))"
proof -
  have g: "mentions_gzip refusing_request"
    by (simp add: mentions_gzip_def refusing_request_def)
  have p: "payload_of example_dumps (Serialized (replicate 1550 97)) = replicate 1550 97"
    by (simp add: payload_of_def)
  have c: "response_data_cb example_dumps example_gzip (Serialized (replicate 1550 97))
             refusing_request =
           (Inr (Bytes (example_gzip (replicate 1550 97) 1)),
            setHeader ''Content-Length''
              (HInt (int (length (example_gzip (replicate 1550 97) 1))))
              (setHeader ''Content-Encoding'' (HStr ''gzip'')
                 (setHeader ''Content-Type'' (HStr ''application/json'') refusing_request)))"
    using response_data_cb_gating [of example_dumps "Serialized (replicate 1550 97)"
        refusing_request "replicate 1550 97" example_gzip] g utf8_encode_letters [of 1550]
    by (simp add: p)
  show ?thesis
    by (simp add: json_response_def addCallback_def long_handler_def c example_gzip_def
       )
qed

text \<open>
  Claim C7, as the code has it. \<open>cors_header\<close> adds its headers in a callback of the handler's
  deferred: when the deferred succeeds, whatever the payload, the response carries
  \<open>Access-Control-Allow-Origin: *\<close> and the \<open>Access-Control-Allow-Headers\<close> list and the result
  is passed on; when the deferred fails the callback is skipped and the response headers are
  those the handler left.
\<close>

theorem cors_on_success_only:
  "(func rq = (succeed res, rq') \<longrightarrow>
      fst (cors_header func rq) = succeed res \<and>
      responseHeaders (snd (cors_header func rq)) ''Access-Control-Allow-Origin''
        = Some (HStr ''*'') \<and>
      responseHeaders (snd (cors_header func rq)) ''Access-Control-Allow-Headers''
        = Some (HStr ''Content-Type, Access-Control-Allow-Headers, Authorization, X-Requested-With'')) \<and>
   (func rq = (fail e, rq') \<longrightarrow> cors_header func rq = (fail e, rq'))"
  by (simp add: cors_header_def addCallback_def cors_request_cb_def setHeader_def)

theorem cors_on_success_only_witness:
  "fst (cors_header ok_handler bare_request) = succeed (Serialized [123, 125]) \<and>
   responseHeaders (snd (cors_header ok_handler bare_request)) ''Access-Control-Allow-Origin''
     = Some (HStr ''*'') \<and>
   responseHeaders (snd (cors_header ok_handler bare_request)) ''Access-Control-Allow-Headers''
     = Some (HStr ''Content-Type, Access-Control-Allow-Headers, Authorization, X-Requested-With'') \<and>
   cors_header failing_handler bare_request
     = (fail (CollaboratorError ''handler failed''), bare_request)"
proof -
  have ok: "ok_handler bare_request = (succeed (Serialized [123, 125]), bare_request)"
    by (simp add: ok_handler_def)
  have ko: "failing_handler bare_request
              = (fail (CollaboratorError ''handler failed''), bare_request)"
    by (simp add: failing_handler_def)
  show ?thesis
    using cors_on_success_only [of ok_handler bare_request "Serialized [123, 125]" bare_request]
      cors_on_success_only [of failing_handler bare_request _ bare_request
        "CollaboratorError ''handler failed''"] ok ko
    by simp
qed

text \<open>
  The claim asks for the headers on error responses too. The response of a handler whose
  deferred fails has no \<open>Access-Control-Allow-Origin\<close> header.
\<close>

theorem cors_missing_on_failure_counterexample:
  "fst (cors_header failing_handler bare_request) = fail (CollaboratorError ''handler failed'') \<and>
   responseHeaders (snd (cors_header failing_handler bare_request))
     ''Access-Control-Allow-Origin'' = None \<and>
   responseHeaders (snd (cors_header failing_handler bare_request))
     ''Access-Control-Allow-Headers'' = None"
  by (simp add: cors_header_def addCallback_def failing_handler_def bare_request_def)

section \<open>The shutdown tail\<close>

lemma run_calls_all:
  "(\<forall>c \<in> set cs. map_of failing c = None) \<Longrightarrow> run_calls failing cs trace = (None, trace @ cs)"
  by (induction cs arbitrary: trace) simp_all

lemma run_calls_stop:
  "(\<forall>c \<in> set pre. map_of failing c = None) \<Longrightarrow> map_of failing c = Some e \<Longrightarrow>
   run_calls failing (pre @ c # post) trace = (Some e, trace @ pre @ [c])"
  by (induction pre arbitrary: trace) simp_all

text \<open>
  Claim C5, as the code has it. Once \<open>reactor.run()\<close> has returned, \<open>main\<close> logs and then
  closes the notification database, disposes the blockchain, shuts the node leader down and,
  with a wallet open, closes the wallet, in this order. Nothing guards the calls: when none
  of them raises, all are made in this order and \<open>main\<close> returns; when one raises, the calls
  before it have been made, the exception leaves \<open>main\<close> and the calls after it are not made.
\<close>

theorem shutdown_runs_unguarded:
  "((\<forall>c \<in> set (shutdown_calls w). map_of failing c = None) \<longrightarrow>
      main_shutdown failing w =
        (None, [Logger_info ''Closing databases...'', NotificationDB_close,
                Blockchain_Default_Dispose, NodeLeader_Instance_Shutdown]
               @ (case w of Some _ \<Rightarrow> [Wallet_Close] | None \<Rightarrow> []))) \<and>
   (shutdown_calls w = pre @ c # post \<and> (\<forall>c \<in> set pre. map_of failing c = None) \<and>
    map_of failing c = Some e \<longrightarrow>
      main_shutdown failing w = (Some e, pre @ [c]))"
proof (intro conjI impI)
  assume "\<forall>c \<in> set (shutdown_calls w). map_of failing c = None"
  then have "run_calls failing (shutdown_calls w) [] = (None, [] @ shutdown_calls w)"
    by (rule run_calls_all)
  then show "main_shutdown failing w =
        (None, [Logger_info ''Closing databases...'', NotificationDB_close,
                Blockchain_Default_Dispose, NodeLeader_Instance_Shutdown]
               @ (case w of Some _ \<Rightarrow> [Wallet_Close] | None \<Rightarrow> []))"
    by (simp add: main_shutdown_def shutdown_calls_def)
next
  assume a: "shutdown_calls w = pre @ c # post \<and>
             (\<forall>c \<in> set pre. map_of failing c = None) \<and> map_of failing c = Some e"
  then have "run_calls failing (pre @ c # post) [] = (Some e, [] @ pre @ [c])"
    by (intro run_calls_stop) simp_all
  then show "main_shutdown failing w = (Some e, pre @ [c])"
    using a by (simp add: main_shutdown_def)
qed

theorem shutdown_runs_unguarded_witness:
  "main_shutdown [] (Some ()) =
     (None, [Logger_info ''Closing databases...'', NotificationDB_close,
             Blockchain_Default_Dispose, NodeLeader_Instance_Shutdown, Wallet_Close]) \<and>
   main_shutdown [(Blockchain_Default_Dispose, CollaboratorError ''dispose failed'')] (Some ()) =
     (Some (CollaboratorError ''dispose failed''),
      [Logger_info ''Closing databases...'', NotificationDB_close, Blockchain_Default_Dispose])"
proof -
  let ?f = "[(Blockchain_Default_Dispose, CollaboratorError ''dispose failed'')]"
  have 1: "\<forall>c \<in> set (shutdown_calls (Some ())). map_of [] c = None" by simp
  have 2: "shutdown_calls (Some ()) =
             [Logger_info ''Closing databases...'', NotificationDB_close]
             @ Blockchain_Default_Dispose # [NodeLeader_Instance_Shutdown, Wallet_Close] \<and>
           (\<forall>c \<in> set [Logger_info ''Closing databases...'', NotificationDB_close].
               map_of ?f c = None) \<and>
           map_of ?f Blockchain_Default_Dispose = Some (CollaboratorError ''dispose failed'')"
    by (simp add: shutdown_calls_def)
  have a: "main_shutdown [] (Some ()) =
     (None, [Logger_info ''Closing databases...'', NotificationDB_close,
             Blockchain_Default_Dispose, NodeLeader_Instance_Shutdown, Wallet_Close])"
    using shutdown_runs_unguarded [where w = "Some ()" and failing = "[]"] 1 by simp
  have b: "main_shutdown ?f (Some ()) =
     (Some (CollaboratorError ''dispose failed''),
      [Logger_info ''Closing databases...'', NotificationDB_close, Blockchain_Default_Dispose])"
    using shutdown_runs_unguarded [where w = "Some ()" and failing = ?f
        and pre = "[Logger_info ''Closing databases...'', NotificationDB_close]"
        and c = Blockchain_Default_Dispose
        and post = "[NodeLeader_Instance_Shutdown, Wallet_Close]"
        and e = "CollaboratorError ''dispose failed''"] 2
    by simp
  show ?thesis by (rule conjI [OF a b])
qed

text \<open>
  The claim has every later step run after a step has raised, and the error logged and not
  raised again. When closing the notification database raises, \<open>main\<close> ends with that
  exception and neither the blockchain nor the node leader nor the wallet is touched.
\<close>

theorem shutdown_aborts_counterexample:
  "main_shutdown [(NotificationDB_close, CollaboratorError ''close failed'')] (Some ()) =
     (Some (CollaboratorError ''close failed''),
      [Logger_info ''Closing databases...'', NotificationDB_close])"
  by (simp add: main_shutdown_def shutdown_calls_def)

section \<open>The guarded resource\<close>

lemma guard_checkers:
  "checkers (portal (guard_resource_with_http_auth credentialChecker port w)) =
     [(IUsernamePassword, UserPass credentialChecker), (IAnonymous, AllowAnonymousAccess)]"
  by (simp add: guard_resource_with_http_auth_def new_Portal_def registerChecker_def
      checker_interfaces_def credentialInterfaces_def)

text \<open>
  Claim C10. The portal that \<open>guard_resource_with_http_auth\<close> builds always holds
  \<open>AllowAnonymousAccess\<close> for \<open>IAnonymous\<close> beside the credential checker, and it takes no
  argument that could switch this off. So a request without an \<open>Authorization\<close> header is
  logged in as \<open>ANONYMOUS\<close> and is served the resource of \<open>ExtendedJsonRpcApi\<close>, the API without
  the authenticated methods, never the 401 resource; the failure history is not touched.
\<close>

theorem anonymous_always_admitted:
  "find_checker (checkers (portal (guard_resource_with_http_auth credentialChecker port w)))
     Anonymous = Some AllowAnonymousAccess \<and>
   authorizedResource to_aes_key (guard_resource_with_http_auth credentialChecker port w)
     NoAuthorization s = (Avatar (ExtendedJsonRpcApi port w), s)"
  by (simp add: guard_checkers authorizedResource_def wrapper_login_def login_def
      checker_requestAvatarId_def requestAvatar_def)
   (simp add: guard_resource_with_http_auth_def new_Portal_def)

theorem anonymous_always_admitted_witness:
  "authorizedResource (\<lambda>p. p)
     (guard_resource_with_http_auth
        \<lparr>username = [97, 108, 105, 99, 101], password = [115, 101, 99, 114, 101, 116]\<rparr>
        10332 (None :: unit option))
     NoAuthorization
     \<lparr>consecutive_errors_history = \<lparr>size_limit = Some 100, entries = []\<rparr>, slept = []\<rparr>
   = (Avatar (ExtendedJsonRpcApi 10332 None),
      \<lparr>consecutive_errors_history = \<lparr>size_limit = Some 100, entries = []\<rparr>, slept = []\<rparr>)"
  using anonymous_always_admitted
    [of "\<lparr>username = [97, 108, 105, 99, 101], password = [115, 101, 99, 114, 101, 116]\<rparr>"
        10332 "None :: unit option" "\<lambda>p. p"
        "\<lparr>consecutive_errors_history = \<lparr>size_limit = Some 100, entries = []\<rparr>, slept = []\<rparr>"]
  by (rule conjunct2)

section \<open>The reader and the writer\<close>

lemma length_le_encode [simp]: "length (le_encode w v) = w"
  by (induction w arbitrary: v) simp_all

lemma le_decode_encode: "v < 256 ^ w \<Longrightarrow> le_decode (le_encode w v) = v"
proof (induction w arbitrary: v)
  case 0
  then show ?case by simp
next
  case (Suc w)
  have "v div 256 < 256 ^ w"
    using Suc.prems by (simp add: less_mult_imp_div_less mult.commute)
  then have "le_decode (le_encode w (v div 256)) = v div 256" by (rule Suc.IH)
  moreover have "unat (of_nat (v mod 256) :: byte) = v mod 256"
    by (intro unat_byte) simp
  ultimately show ?case by simp
qed

lemma read_bytes_take:
  "length raw = k \<Longrightarrow>
   read_bytes k (take n (raw @ rest)) =
     (if n < k then Inl Truncated else Inr (raw, take (n - k) rest))"
  by (auto simp: read_bytes_def min_def)

lemma read_bytes_exact: "length raw = k \<Longrightarrow> read_bytes k (raw @ rest) = Inr (raw, rest)"
  by (simp add: read_bytes_def)

lemma unpack_uint_take:
  "v < 256 ^ w \<Longrightarrow>
   unpack_uint w (take n (le_encode w v @ rest)) =
     (if n < w then Inl Truncated else Inr (int v, take (n - w) rest))"
  by (simp add: unpack_uint_def read_bytes_take le_decode_encode del: take_append)

lemma unpack_uint_exact:
  "v < 256 ^ w \<Longrightarrow> unpack_uint w (le_encode w v @ rest) = Inr (int v, rest)"
  by (simp add: unpack_uint_def read_bytes_exact le_decode_encode)

lemma ReadBool_take:
  "ReadBool (take n ((if b then 1 else 0) # rest)) =
     (if n < 1 then Inl Truncated else Inr (b, take (n - 1) rest))"
  using read_bytes_take [of "[if b then 1 else 0]" 1 n rest]
  by (simp add: ReadBool_def del: take_append)

lemma ReadBool_exact: "ReadBool ((if b then 1 else 0) # rest) = Inr (b, rest)"
  using read_bytes_exact [of "[if b then 1 else 0]" 1 rest]
  by (simp add: ReadBool_def)

lemma read_bytes_1_take:
  "read_bytes (Suc 0) (take n (x # rest)) =
     (if n = 0 then Inl Truncated else Inr ([x], take (n - 1) rest))"
  using read_bytes_take [of "[x]" 1 n rest] by simp

lemma read_marked_take:
  "v < 256 ^ w \<Longrightarrow> least \<le> v \<Longrightarrow>
   read_marked w least (take n (le_encode w v @ rest)) =
     (if n < w then Inl Truncated else Inr (v, take (n - w) rest))"
  by (simp add: read_marked_def read_bytes_take le_decode_encode del: take_append)

lemma length_varint_bytes:
  "length (varint_bytes v) =
     (if v < 0xFD then 1 else if v \<le> 0xFFFF then 3 else if v \<le> 0xFFFFFFFF then 5 else 9)"
  by (simp add: varint_bytes_def)

lemma ReadVarInt_take:
  assumes "v < 2 ^ 64"
  shows "ReadVarInt (take n (varint_bytes v @ rest)) =
           (if n < length (varint_bytes v) then Inl Truncated
            else Inr (v, take (n - length (varint_bytes v)) rest))"
proof -
  consider (a) "v < 0xFD" | (b) "\<not> v < 0xFD" "v \<le> 0xFFFF"
    | (c) "\<not> v \<le> 0xFFFF" "v \<le> 0xFFFFFFFF" | (d) "\<not> v \<le> 0xFFFFFFFF"
    by linarith
  then show ?thesis
  proof cases
    case a
    then have u: "unat (of_nat v :: byte) = v" by (intro unat_byte) simp
    show ?thesis
      using a by (simp add: varint_bytes_def ReadVarInt_def read_bytes_1_take u Let_def
          del: take_append)
  next
    case b
    have "read_marked 2 0xFD (take (n - Suc 0) (le_encode 2 v @ rest)) =
               (if n - Suc 0 < 2 then Inl Truncated else Inr (v, take (n - Suc 0 - 2) rest))"
      using b by (intro read_marked_take) simp_all
    moreover have "n - Suc 0 - 2 = n - 3" "(n - Suc 0 < 2) = (n < 3)" by auto
    ultimately have m: "read_marked 2 0xFD (take (n - Suc 0) (le_encode 2 v @ rest)) =
               (if n < 3 then Inl Truncated else Inr (v, take (n - 3) rest))"
      by simp
    show ?thesis
      using b by (auto simp: varint_bytes_def ReadVarInt_def read_bytes_1_take m Let_def
          simp del: take_append le_encode.simps)
  next
    case c
    have "read_marked 4 0x10000 (take (n - Suc 0) (le_encode 4 v @ rest)) =
               (if n - Suc 0 < 4 then Inl Truncated else Inr (v, take (n - Suc 0 - 4) rest))"
      using c by (intro read_marked_take) simp_all
    moreover have "n - Suc 0 - 4 = n - 5" "(n - Suc 0 < 4) = (n < 5)" by auto
    ultimately have m: "read_marked 4 0x10000 (take (n - Suc 0) (le_encode 4 v @ rest)) =
               (if n < 5 then Inl Truncated else Inr (v, take (n - 5) rest))"
      by simp
    show ?thesis
      using c by (auto simp: varint_bytes_def ReadVarInt_def read_bytes_1_take m Let_def
          simp del: take_append le_encode.simps)
  next
    case d
    have "read_marked 8 0x100000000 (take (n - Suc 0) (le_encode 8 v @ rest)) =
               (if n - Suc 0 < 8 then Inl Truncated else Inr (v, take (n - Suc 0 - 8) rest))"
      using d assms by (intro read_marked_take) simp_all
    moreover have "n - Suc 0 - 8 = n - 9" "(n - Suc 0 < 8) = (n < 9)" by auto
    ultimately have m: "read_marked 8 0x100000000 (take (n - Suc 0) (le_encode 8 v @ rest)) =
               (if n < 9 then Inl Truncated else Inr (v, take (n - 9) rest))"
      by simp
    show ?thesis
      using d by (auto simp: varint_bytes_def ReadVarInt_def read_bytes_1_take m Let_def
          simp del: take_append le_encode.simps)
  qed
qed

lemma ReadVarString_take:
  assumes "length raw < 2 ^ 64"
  shows "ReadVarString (take n (varint_bytes (length raw) @ raw @ rest)) =
           (if n < length (varint_bytes (length raw)) + length raw then Inl Truncated
            else Inr (raw, take (n - (length (varint_bytes (length raw)) + length raw)) rest))"
proof -
  let ?k = "length (varint_bytes (length raw))"
  have v: "ReadVarInt (take n (varint_bytes (length raw) @ raw @ rest)) =
             (if n < ?k then Inl Truncated else Inr (length raw, take (n - ?k) (raw @ rest)))"
    using assms by (rule ReadVarInt_take)
  have r: "read_bytes (length raw) (take (n - ?k) (raw @ rest)) =
             (if n - ?k < length raw then Inl Truncated
              else Inr (raw, take (n - ?k - length raw) rest))"
    by (rule read_bytes_take) simp
  have "n - ?k - length raw = n - (?k + length raw)" by simp
  then show ?thesis
    unfolding ReadVarString_def v using r by (auto simp del: take_append)
qed

lemma Serialize_valid:
  assumes "valid_payload p"
  shows "Serialize p w = Inr (w @ wire_layout p)"
proof -
  obtain v sv ts po no sh ua raw where f:
    "Version p = Some v" "0 \<le> v" "v < 256 ^ 1"
    "Services p = Some sv" "0 \<le> sv" "sv < 256 ^ 8"
    "Timestamp p = Some ts" "0 \<le> ts" "ts < 256 ^ 4"
    "Port p = Some po" "0 \<le> po" "po < 256 ^ 2"
    "Nonce p = Some no" "0 \<le> no" "no < 256 ^ 4"
    "StartHeight p = Some sh" "0 \<le> sh" "sh < 256 ^ 4"
    "UserAgent p = Some ua" "utf8_encode ua = Some raw" "length raw < 2 ^ 64"
    using assms by (auto simp: valid_payload_def fits_def split: option.splits)
  show ?thesis
    using f
    by (simp add: Serialize_def wire_layout_def WriteUInt8_def WriteUInt16_def WriteUInt32_def
        WriteUInt64_def pack_uint_def WriteVarString_def WriteVarInt_def WriteBool_def
        del: le_encode.simps)
qed

lemma ReadVarString_exact:
  assumes "length raw < 2 ^ 64"
  shows "ReadVarString (varint_bytes (length raw) @ raw @ rest) = Inr (raw, rest)"
  using ReadVarString_take [OF assms, of "length (varint_bytes (length raw) @ raw @ rest)" rest]
  by simp

lemma valid_payload_fields:
  assumes "valid_payload p"
  obtains a b t po no h ua raw where
    "Version p = Some (int a)" "a < 256 ^ 1"
    "Services p = Some (int b)" "b < 256 ^ 8"
    "Timestamp p = Some (int t)" "t < 256 ^ 4"
    "Port p = Some (int po)" "po < 256 ^ 2"
    "Nonce p = Some (int no)" "no < 256 ^ 4"
    "StartHeight p = Some (int h)" "h < 256 ^ 4"
    "UserAgent p = Some ua" "utf8_encode ua = Some raw" "length raw < 2 ^ 64"
proof -
  obtain v sv ts pv nv sh ua raw where f:
    "Version p = Some v" "0 \<le> v" "v < 256 ^ 1"
    "Services p = Some sv" "0 \<le> sv" "sv < 256 ^ 8"
    "Timestamp p = Some ts" "0 \<le> ts" "ts < 256 ^ 4"
    "Port p = Some pv" "0 \<le> pv" "pv < 256 ^ 2"
    "Nonce p = Some nv" "0 \<le> nv" "nv < 256 ^ 4"
    "StartHeight p = Some sh" "0 \<le> sh" "sh < 256 ^ 4"
    "UserAgent p = Some ua" "utf8_encode ua = Some raw" "length raw < 2 ^ 64"
    using assms by (auto simp: valid_payload_def fits_def split: option.splits)
  show thesis
  proof (rule that [of "nat v" "nat sv" "nat ts" "nat pv" "nat nv" "nat sh" ua raw])
    show "nat v < 256 ^ 1" using f(2,3) by (simp add: nat_less_iff)
    show "nat sv < 256 ^ 8" using f(5,6) by (simp add: nat_less_iff)
    show "nat ts < 256 ^ 4" using f(8,9) by (simp add: nat_less_iff)
    show "nat pv < 256 ^ 2" using f(11,12) by (simp add: nat_less_iff)
    show "nat nv < 256 ^ 4" using f(14,15) by (simp add: nat_less_iff)
    show "nat sh < 256 ^ 4" using f(17,18) by (simp add: nat_less_iff)
  qed (use f in simp_all)
qed

lemma wire_layout_fields:
  assumes "Version p = Some (int a)" "Services p = Some (int b)" "Timestamp p = Some (int t)"
    "Port p = Some (int po)" "Nonce p = Some (int no)" "StartHeight p = Some (int h)"
    "UserAgent p = Some ua" "utf8_encode ua = Some raw"
  shows "wire_layout p =
           le_encode 1 a @ le_encode 8 b @ le_encode 4 t @ le_encode 2 po @ le_encode 4 no @
           varint_bytes (length raw) @ raw @ le_encode 4 h @ [if Relay p then 1 else 0]"
  using assms by (simp add: wire_layout_def del: le_encode.simps)

lemmas read_defs = ReadUInt8_def ReadUInt16_def ReadUInt32_def ReadUInt64_def

lemma Deserialize_exact:
  assumes "valid_payload p"
  shows "Deserialize self (wire_layout p) = (None, p, [])"
proof -
  from assms obtain a b t po no h ua raw where f:
    "Version p = Some (int a)" "a < 256 ^ 1"
    "Services p = Some (int b)" "b < 256 ^ 8"
    "Timestamp p = Some (int t)" "t < 256 ^ 4"
    "Port p = Some (int po)" "po < 256 ^ 2"
    "Nonce p = Some (int no)" "no < 256 ^ 4"
    "StartHeight p = Some (int h)" "h < 256 ^ 4"
    "UserAgent p = Some ua" "utf8_encode ua = Some raw" "length raw < 2 ^ 64"
    by (rule valid_payload_fields)
  have w: "wire_layout p =
           le_encode 1 a @ le_encode 8 b @ le_encode 4 t @ le_encode 2 po @ le_encode 4 no @
           varint_bytes (length raw) @ raw @ le_encode 4 h @ [if Relay p then 1 else 0]"
    using f by (intro wire_layout_fields)
  have d: "utf8_decode raw = Some ua" using f(14) by (rule utf8_roundtrip)
  have "Deserialize self (wire_layout p) =
          (None, self\<lparr>Version := Some (int a), Services := Some (int b),
                     Timestamp := Some (int t), Port := Some (int po), Nonce := Some (int no),
                     UserAgent := Some ua, StartHeight := Some (int h), Relay := Relay p\<rparr>, [])"
    unfolding w Deserialize_def read_defs
    using f(2,4,6,8,10,12)
    by (simp add: unpack_uint_exact ReadVarString_exact [OF f(15)] ReadBool_exact d
        del: le_encode.simps)
  also have "self\<lparr>Version := Some (int a), Services := Some (int b),
                     Timestamp := Some (int t), Port := Some (int po), Nonce := Some (int no),
                     UserAgent := Some ua, StartHeight := Some (int h), Relay := Relay p\<rparr> = p"
    using f by (intro VersionPayload.equality) simp_all
  finally show ?thesis .
qed

lemma length_wire_layout:
  assumes "valid_payload p"
  shows "length (wire_layout p) =
           24 + length (varint_bytes (length (the (utf8_encode (the (UserAgent p))))))
              + length (the (utf8_encode (the (UserAgent p))))"
  by (simp add: wire_layout_def)

lemma ReadBool_Nil: "ReadBool [] = Inl Truncated"
  by (simp add: ReadBool_def read_bytes_def)

lemma Deserialize_take:
  assumes "valid_payload p"
  shows "fst (Deserialize self (take n (wire_layout p))) =
           (if n < length (wire_layout p) then Some Truncated else None)"
proof -
  from assms obtain a b t po no h ua raw where f:
    "Version p = Some (int a)" "a < 256 ^ 1"
    "Services p = Some (int b)" "b < 256 ^ 8"
    "Timestamp p = Some (int t)" "t < 256 ^ 4"
    "Port p = Some (int po)" "po < 256 ^ 2"
    "Nonce p = Some (int no)" "no < 256 ^ 4"
    "StartHeight p = Some (int h)" "h < 256 ^ 4"
    "UserAgent p = Some ua" "utf8_encode ua = Some raw" "length raw < 2 ^ 64"
    by (rule valid_payload_fields)
  have w: "wire_layout p =
           le_encode 1 a @ le_encode 8 b @ le_encode 4 t @ le_encode 2 po @ le_encode 4 no @
           varint_bytes (length raw) @ raw @ le_encode 4 h @ [if Relay p then 1 else 0]"
    using f by (intro wire_layout_fields)
  have d: "utf8_decode raw = Some ua" using f(14) by (rule utf8_roundtrip)
  show ?thesis
    unfolding w Deserialize_def read_defs
    using f(2,4,6,8,10,12)
    by (simp add: unpack_uint_take ReadVarString_take [OF f(15)] ReadBool_take d Let_def
        unpack_uint_exact ReadVarString_exact [OF f(15)] ReadBool_exact ReadBool_Nil
        del: le_encode.simps take_append)
qed

lemma example_payload_encoded:
  "utf8_encode [47, 78, 69, 79, 58, 50, 46, 52, 46, 49, 47]
     = Some [47, 78, 69, 79, 58, 50, 46, 52, 46, 49, 47]"
  by (simp add: utf8_encode_cp_def)

lemma example_payload_valid: "valid_payload example_payload"
  by (simp add: valid_payload_def fits_def example_payload_def example_payload_encoded
      del: utf8_encode.simps)

text \<open>
  Claim C1. For a valid version message \<open>p\<close>, \<open>Serialize\<close> writes the fields in the order
  version, services, timestamp, port, nonce, user agent, start height, relay, and
  \<open>Deserialize\<close>, reading the octets written in the same order, leaves an object equal to \<open>p\<close>
  with nothing of the stream unread, whatever the object held before.
\<close>

theorem handshake_roundtrip:
  "valid_payload p \<Longrightarrow>
   Serialize p w = Inr (w @ wire_layout p) \<and>
   Deserialize self (wire_layout p) = (None, p, [])"
proof
  assume v: "valid_payload p"
  then show "Serialize p w = Inr (w @ wire_layout p)" by (rule Serialize_valid)
  from v show "Deserialize self (wire_layout p) = (None, p, [])" by (rule Deserialize_exact)
qed

theorem handshake_roundtrip_witness:
  "Serialize example_payload [] = Inr ([] @ wire_layout example_payload) \<and>
   Deserialize VersionPayload_class (wire_layout example_payload) = (None, example_payload, [])"
  using handshake_roundtrip [OF example_payload_valid, of "[]" VersionPayload_class] .

text \<open>
  Claim C4. For a valid version message and every length \<open>n\<close> shorter than its encoding,
  \<open>Deserialize\<close> on the first \<open>n\<close> octets of the encoding ends with the exception \<open>Truncated\<close>:
  it does not return normally, so no object is handed back as decoded.
\<close>

theorem truncated_prefix_fails:
  "valid_payload p \<Longrightarrow> n < length (wire_layout p) \<Longrightarrow>
   fst (Deserialize self (take n (wire_layout p))) = Some Truncated"
proof -
  assume v: "valid_payload p" and n: "n < length (wire_layout p)"
  have "fst (Deserialize self (take n (wire_layout p))) =
          (if n < length (wire_layout p) then Some Truncated else None)"
    using v by (rule Deserialize_take)
  then show ?thesis using n by simp
qed

theorem truncated_prefix_fails_witness:
  "fst (Deserialize VersionPayload_class (take 20 (wire_layout example_payload)))
     = Some Truncated"
proof -
  have "length (wire_layout example_payload) = 36"
    by (simp add: wire_layout_def example_payload_def example_payload_encoded varint_bytes_def
        del: utf8_encode.simps)
  then have "20 < length (wire_layout example_payload)" by simp
  then show ?thesis by (rule truncated_prefix_fails [OF example_payload_valid])
qed

text \<open>
  The exception leaves the receiver as the assignments made before the failing read left it:
  with between one and eight octets of input, \<open>Version\<close> has been assigned and nothing else.
\<close>

lemma truncated_prefix_assigns_read_fields:
  assumes "valid_payload p" "1 \<le> n" "n < 9"
  shows "Deserialize self (take n (wire_layout p)) =
           (Some Truncated, self\<lparr>Version := Version p\<rparr>, take (n - 1) (tl (wire_layout p)))"
proof -
  from assms(1) obtain a b t po no h ua raw where f:
    "Version p = Some (int a)" "a < 256 ^ 1"
    "Services p = Some (int b)" "b < 256 ^ 8"
    "Timestamp p = Some (int t)" "t < 256 ^ 4"
    "Port p = Some (int po)" "po < 256 ^ 2"
    "Nonce p = Some (int no)" "no < 256 ^ 4"
    "StartHeight p = Some (int h)" "h < 256 ^ 4"
    "UserAgent p = Some ua" "utf8_encode ua = Some raw" "length raw < 2 ^ 64"
    by (rule valid_payload_fields)
  have w: "wire_layout p =
           le_encode 1 a @ le_encode 8 b @ le_encode 4 t @ le_encode 2 po @ le_encode 4 no @
           varint_bytes (length raw) @ raw @ le_encode 4 h @ [if Relay p then 1 else 0]"
    using f by (intro wire_layout_fields)
  have t: "tl (le_encode 1 a @ rest) = rest" for rest
    by simp
  show ?thesis
    unfolding w Deserialize_def read_defs t
    using f(2,4) assms(2,3) f(1)
    by (auto simp add: unpack_uint_take Let_def simp del: le_encode.simps take_append)
qed

end
